theory Spec2Isabelle
  imports Main "HOL-Library.Char_ord" "HOL-Library.List_Lexorder" "HOL-Library.Sublist"
    "HOL-Library.Word"
begin

section \<open>NSO event subscriber: notifications, filters, webhooks, subscribers\<close>

text \<open>
  A shallow embedding of the Go program: the notification handlers, the webhook filter
  and validation, the stream subscribers and the helpers they use.
  Go strings and byte slices are \<^typ>\<open>string\<close> (lists of 8-bit characters), compared
  bytewise as Go compares them. Go's \<^verbatim>\<open>error\<close> values and panics are values of the
  type \<open>error\<close>; a Go function returning \<^verbatim>\<open>(T, error)\<close> returns \<open>error + T\<close>.
  Calls into Go's standard library whose behaviour depends on a run-time string
  (\<^verbatim>\<open>regexp.Compile\<close>, \<^verbatim>\<open>url.Parse\<close>, \<^verbatim>\<open>xml.Unmarshal\<close>, \<^verbatim>\<open>json.Encoder\<close>) are
  parameters of the functions that call them.
\<close>

subsection \<open>Errors\<close>

datatype error =
    Error string    \<comment> \<open>an \<^verbatim>\<open>error\<close> value with its message\<close>
  | Panic string    \<comment> \<open>a run-time panic\<close>

subsection \<open>Machine integers\<close>

text \<open>
  Go's \<^verbatim>\<open>int\<close> on the platform the program is built for (\<^verbatim>\<open>GOARCH=amd64\<close>): 64 bits in
  two's complement. Addition wraps around, and \<open>sint\<close> reads the number a word stands
  for.
\<close>

type_synonym go_int = "64 word"

subsection \<open>Data model\<close>

datatype EventType =
    EVENT_UNKNOWN
  | EVENT_NCS_COMMIT_QUEUE_PROGRESS
  | EVENT_NETCONF_SESSION_START
  | EVENT_NETCONF_CONFIG_CHANGE

fun EventType_String :: "EventType \<Rightarrow> string" where
  "EventType_String EVENT_UNKNOWN = ''unknown''"
| "EventType_String EVENT_NCS_COMMIT_QUEUE_PROGRESS = ''ncs-commit-queue-progress''"
| "EventType_String EVENT_NETCONF_SESSION_START = ''netconf-session-start''"
| "EventType_String EVENT_NETCONF_CONFIG_CHANGE = ''netconf-config-change''"

record NetconfConfigChangeEdit =
  Target :: string
  Operation :: string

text \<open>
  \<^verbatim>\<open>Notification\<close>: \<open>Edits\<close> and the values of \<open>DeviceEdits\<close> hold pointers to the same
  immutable edit objects in Go; here they hold the edits themselves. \<open>EventTime\<close> is the
  timestamp as text.
\<close>

record Notification =
  EventTime :: string
  EventName :: string
  EventType :: EventType
  User :: string
  UserHost :: string
  Datastore :: string
  Devices :: "string list"
  Edits :: "NetconfConfigChangeEdit list"
  DeviceEdits :: "string \<rightharpoonup> NetconfConfigChangeEdit list"
  Inner :: string

definition newNotification :: Notification where
  "newNotification =
     \<lparr>EventTime = [], EventName = EventType_String EVENT_UNKNOWN, EventType = EVENT_UNKNOWN,
      User = [], UserHost = [], Datastore = [], Devices = [], Edits = [],
      DeviceEdits = Map.empty, Inner = []\<rparr>"

definition setEventType :: "EventType \<Rightarrow> Notification \<Rightarrow> Notification" where
  "setEventType e n = n\<lparr>EventType := e, EventName := EventType_String e\<rparr>"

text \<open>
  \<^verbatim>\<open>Filter\<close>: \<open>Node\<close> is a slice of pointers to string maps; \<open>None\<close> is a nil pointer.
\<close>

record Filter =
  Event :: string
  Node :: "(string \<rightharpoonup> string) option list"

text \<open>A parsed \<^verbatim>\<open>url.URL\<close>: the host part and the text it prints as.\<close>

record URL =
  Host :: string
  URL_String :: string

text \<open>
  \<^verbatim>\<open>webhook\<close>: a hook is known by its position in the configured list of webhooks, a
  stream by its position in the server's stream list, so \<open>StreamList\<close> (pointers to
  streams in Go) holds stream positions; the nil slice is the empty list. \<open>wh_User\<close> is
  the field \<^verbatim>\<open>User\<close>, \<open>wh_Filter\<close> the field \<^verbatim>\<open>Filter\<close>.
\<close>

record webhook =
  Stream :: string
  Disable :: bool
  Url :: string
  wh_User :: string
  ApiToken :: string
  Token :: string
  wh_Filter :: "Filter option"
  StreamList :: "nat list"
  targetURL :: "URL option"

subsection \<open>Helpers\<close>

text \<open>\<^verbatim>\<open>strings.Contains(target, s)\<close>: \<open>s\<close> occurs in \<open>target\<close> as a contiguous run.\<close>

fun strings_Contains :: "string \<Rightarrow> string \<Rightarrow> bool" where
  "strings_Contains [] s = (s = [])"
| "strings_Contains (c # cs) s = (prefix s (c # cs) \<or> strings_Contains cs s)"

definition fuzzyNameMatch :: "string \<Rightarrow> string \<Rightarrow> bool" where
  "fuzzyNameMatch s target = (if s = target \<or> strings_Contains target s then True else False)"

subsection \<open>The webhook filter\<close>

text \<open>
  Go's \<^verbatim>\<open>regexp\<close> library as a parameter: \<open>re pattern\<close> is \<open>None\<close> when the pattern
  does not compile (\<^verbatim>\<open>regexp.Compile\<close> returns an error, \<^verbatim>\<open>regexp.MustCompile\<close> panics),
  and \<open>Some m\<close> otherwise, where \<open>m data\<close> says whether \<^verbatim>\<open>FindStringSubmatch(data)\<close> is
  not nil.
\<close>

type_synonym regexp = "string \<Rightarrow> (string \<Rightarrow> bool) option"

definition backslash :: char where
  "backslash = CHR 0x5C"

text \<open>The loop over \<^verbatim>\<open>webhook.Filter.Node\<close> in \<^verbatim>\<open>filter\<close>.\<close>

fun filter_nodes :: "regexp \<Rightarrow> (string \<rightharpoonup> string) option list \<Rightarrow> string \<Rightarrow> error + bool" where
  "filter_nodes re [] data = Inr True"
| "filter_nodes re (None # ns) data = Inl (Panic ''nil pointer dereference'')"
| "filter_nodes re (Some n # ns) data =
     (case n ''name'' of
        None \<Rightarrow> filter_nodes re ns data
      | Some name \<Rightarrow>
          (case n ''value'' of
             Some val \<Rightarrow>
               (case re (''<'' @ name @ ''[^>]*>'' @ val @ ''</'' @ name @ ''>'') of
                  None \<Rightarrow> Inl (Panic ''regexp: Compile'')
                | Some m \<Rightarrow> if \<not> m data then Inr False else filter_nodes re ns data)
           | None \<Rightarrow>
               (case re (''<'' @ name @ ''['' @ [backslash] @ ''s>]+'') of
                  None \<Rightarrow> Inl (Panic ''regexp: Compile'')
                | Some m \<Rightarrow> if \<not> m data then Inr False else filter_nodes re ns data)))"

definition filter_webhook :: "regexp \<Rightarrow> webhook \<Rightarrow> Notification \<Rightarrow> string \<Rightarrow> error + bool" where
  "filter_webhook re hook n data =
     (case wh_Filter hook of
        None \<Rightarrow> Inr True
      | Some f \<Rightarrow>
          if Event f \<noteq> [] \<and> Event f \<noteq> EventName n then Inr False
          else filter_nodes re (Node f) data)"

definition shouldFire :: "regexp \<Rightarrow> webhook \<Rightarrow> Notification \<Rightarrow> string \<Rightarrow> error + bool" where
  "shouldFire re hook n data =
     (if Disable hook then Inr False else filter_webhook re hook n data)"

subsection \<open>Streams and webhook validation\<close>

datatype StreamEncodingType = ENCODING_UNKNOWN | ENCODING_JSON | ENCODING_XML

record Access =
  EncodingType :: StreamEncodingType
  Encoding :: string
  LocationURL :: URL
  Location :: string

text \<open>
  \<^verbatim>\<open>Stream\<close>: \<open>Webhooks\<close> (pointers to webhooks in Go) holds positions in the configured
  list of webhooks.
\<close>

record Stream =
  Name :: string
  Description :: string
  ReplaySupport :: bool
  Access :: "Access list"
  Webhooks :: "nat list"

text \<open>
  \<^verbatim>\<open>findStreamsByName\<close>: the positions of the streams whose name matches, in order. Go
  returns the nil slice when none matches.
\<close>

definition findStreamsByName :: "Stream list \<Rightarrow> string \<Rightarrow> nat list" where
  "findStreamsByName streamList targetName =
     [i \<leftarrow> [0 ..< length streamList]. fuzzyNameMatch targetName (Name (streamList ! i))]"

definition addWebhook :: "nat \<Rightarrow> Stream \<Rightarrow> Stream" where
  "addWebhook hook stream = stream\<lparr>Webhooks := Webhooks stream @ [hook]\<rparr>"

text \<open>
  \<^verbatim>\<open>validate\<close>, first loop, the inner loop over the filter's nodes: a value that does not
  compile as a regular expression disables the hook.
\<close>

fun validate_nodes :: "regexp \<Rightarrow> (string \<rightharpoonup> string) option list \<Rightarrow> webhook \<Rightarrow> error + webhook" where
  "validate_nodes re [] hook = Inr hook"
| "validate_nodes re (None # ns) hook = Inl (Panic ''nil pointer dereference'')"
| "validate_nodes re (Some n # ns) hook =
     (case n ''value'' of
        None \<Rightarrow> validate_nodes re ns hook
      | Some val \<Rightarrow>
          (case re val of
             None \<Rightarrow> validate_nodes re ns (hook\<lparr>StreamList := [], Disable := True\<rparr>)
           | Some m \<Rightarrow> validate_nodes re ns hook))"

text \<open>The body of the first loop, for one hook; \<open>url_Parse\<close> is Go's \<^verbatim>\<open>url.Parse\<close>.\<close>

definition validate_hook :: "(string \<Rightarrow> error + URL) \<Rightarrow> regexp \<Rightarrow> webhook \<Rightarrow> error + webhook" where
  "validate_hook url_Parse re hook =
     (let hook1 = (case url_Parse (Url hook) of
                     Inl err \<Rightarrow> hook\<lparr>StreamList := [], Disable := True\<rparr>
                   | Inr targetUrl \<Rightarrow> hook\<lparr>targetURL := Some targetUrl\<rparr>)
      in case wh_Filter hook1 of
           None \<Rightarrow> Inr hook1
         | Some f \<Rightarrow> validate_nodes re (Node f) hook1)"

fun validate_hooks :: "(string \<Rightarrow> error + URL) \<Rightarrow> regexp \<Rightarrow> webhook list \<Rightarrow> error + webhook list" where
  "validate_hooks url_Parse re [] = Inr []"
| "validate_hooks url_Parse re (hook # hooks) =
     (case validate_hook url_Parse re hook of
        Inl err \<Rightarrow> Inl err
      | Inr hook' \<Rightarrow>
          (case validate_hooks url_Parse re hooks of
             Inl err \<Rightarrow> Inl err
           | Inr hooks' \<Rightarrow> Inr (hook' # hooks')))"

text \<open>Second loop: every hook gets the streams its stream name matches.\<close>

definition link_streams :: "Stream list \<Rightarrow> webhook list \<Rightarrow> webhook list" where
  "link_streams streamList hooks =
     map (\<lambda>hook. hook\<lparr>StreamList := findStreamsByName streamList (Stream hook)\<rparr>) hooks"

text \<open>
  Third loop: hook number \<open>i\<close> is added to each stream of its \<open>StreamList\<close> (a hook with no
  stream only gets a warning printed).
\<close>

fun add_to_streams :: "nat \<Rightarrow> nat list \<Rightarrow> Stream list \<Rightarrow> Stream list" where
  "add_to_streams i [] streamList = streamList"
| "add_to_streams i (j # js) streamList =
     add_to_streams i js (streamList[j := addWebhook i (streamList ! j)])"

fun link_webhooks :: "nat \<Rightarrow> webhook list \<Rightarrow> Stream list \<Rightarrow> Stream list" where
  "link_webhooks i [] streamList = streamList"
| "link_webhooks i (hook # hooks) streamList =
     link_webhooks (Suc i) hooks (add_to_streams i (StreamList hook) streamList)"

definition validate ::
  "(string \<Rightarrow> error + URL) \<Rightarrow> regexp \<Rightarrow> webhook list \<Rightarrow> Stream list
     \<Rightarrow> error + (webhook list \<times> Stream list)" where
  "validate url_Parse re webhooks streamList =
     (if length webhooks > 0 then
        (case validate_hooks url_Parse re webhooks of
           Inl err \<Rightarrow> Inl err
         | Inr hooks1 \<Rightarrow>
             (let hooks2 = link_streams streamList hooks1
              in Inr (hooks2, link_webhooks 0 hooks2 streamList)))
      else Inr (webhooks, streamList))"

subsection \<open>Output colours\<close>

definition ESCAPE :: string where "ESCAPE = [CHR 0x1B]"

definition COLOR_RESET :: nat where "COLOR_RESET = 0"
definition COLOR_YELLOW :: nat where "COLOR_YELLOW = 33"
definition COLOR_HI_BLUE :: nat where "COLOR_HI_BLUE = 94"
definition COLOR_HIGHLIGHT :: nat where "COLOR_HIGHLIGHT = COLOR_YELLOW"
definition COLOR_EVENT :: nat where "COLOR_EVENT = COLOR_HI_BLUE"

text \<open>The verb \<^verbatim>\<open>%d\<close> of \<^verbatim>\<open>fmt.Sprintf\<close> on a number that is not negative.\<close>

fun Sprintf_d :: "nat \<Rightarrow> string" where
  "Sprintf_d n =
     (if n < 10 then [char_of (48 + n)]
      else Sprintf_d (n div 10) @ [char_of (48 + n mod 10)])"

declare Sprintf_d.simps [simp del]

text \<open>\<^verbatim>\<open>stringColorize\<close>; \<open>noColor\<close> is the setting \<^verbatim>\<open>Config.noColor\<close>.\<close>

definition stringColorize :: "bool \<Rightarrow> string \<Rightarrow> nat \<Rightarrow> string" where
  "stringColorize noColor s c =
     (if noColor then s
      else ESCAPE @ ''['' @ Sprintf_d c @ ''m'' @ s @ ESCAPE @ ''['' @ Sprintf_d COLOR_RESET @ ''m'')"

subsection \<open>Cleaning the inner payload\<close>

text \<open>
  \<^verbatim>\<open>bytes.ReplaceAll(s, old, new)\<close> for a pattern \<open>old\<close> that is not empty: the occurrences
  of \<open>old\<close> are replaced from left to right, without overlap. (The program only calls it
  with the two patterns of \<open>xmlInnerCleanup\<close>; with the empty pattern Go inserts \<open>new\<close>
  around every character, which this function does not model and returns \<open>s\<close>.)
\<close>

function bytes_ReplaceAll :: "string \<Rightarrow> string \<Rightarrow> string \<Rightarrow> string" where
  "bytes_ReplaceAll s old new =
     (if old = [] \<or> s = [] then s
      else if prefix old s then new @ bytes_ReplaceAll (drop (length old) s) old new
      else hd s # bytes_ReplaceAll (tl s) old new)"
  by pat_completeness auto
termination
  by (relation "measure (\<lambda>(s, old, new). length s)") (auto simp: neq_Nil_conv)

declare bytes_ReplaceAll.simps [simp del]

definition newline :: char where
  "newline = CHR 0x0A"

definition xmlInnerCleanup :: "string \<Rightarrow> string" where
  "xmlInnerCleanup source =
     bytes_ReplaceAll (bytes_ReplaceAll source (newline # ''data:     '') []) (newline # ''data: '') []"

subsection \<open>The two fixed regular expressions\<close>

text \<open>The class \<^verbatim>\<open>\s\<close> of Go's regular expressions: tab, newline, form feed, return, space.\<close>

definition isspace :: "char \<Rightarrow> bool" where
  "isspace c = (c \<in> {CHR 0x09, CHR 0x0A, CHR 0x0C, CHR 0x0D, CHR '' ''})"

definition quote :: char where
  "quote = CHR 0x27"

text \<open>
  \<^verbatim>\<open>reEventName = </eventTime>[\s]*<([^\s^>]+)\<close> matched at the start of \<open>s\<close>: the closing
  tag, any white space, \<^verbatim>\<open><\<close>, then the longest run (not empty) of characters other
  than white space, \<^verbatim>\<open>^\<close> and \<^verbatim>\<open>>\<close>. The result is the run, submatch 1.
\<close>

definition reEventName_at :: "string \<Rightarrow> string option" where
  "reEventName_at s =
     (if prefix ''</eventTime>'' s then
        (case dropWhile isspace (drop (length ''</eventTime>'') s) of
           [] \<Rightarrow> None
         | c # rest \<Rightarrow>
             if c = CHR ''<'' then
               (let name = takeWhile (\<lambda>c. \<not> isspace c \<and> c \<noteq> CHR ''^'' \<and> c \<noteq> CHR ''>'') rest
                in if name = [] then None else Some name)
             else None)
      else None)"

text \<open>
  \<^verbatim>\<open>reEventName.FindStringSubmatch(s)\<close>: the leftmost match; \<open>None\<close> is Go's nil, and
  \<open>Some name\<close> gives submatch 1.
\<close>

fun reEventName_FindStringSubmatch :: "string \<Rightarrow> string option" where
  "reEventName_FindStringSubmatch [] = reEventName_at []"
| "reEventName_FindStringSubmatch (c # cs) =
     (case reEventName_at (c # cs) of
        Some name \<Rightarrow> Some name
      | None \<Rightarrow> reEventName_FindStringSubmatch cs)"

text \<open>
  \<^verbatim>\<open>reDevice = ncs:device\[ncs:name='([^']+)'\]\<close> matched at the start of \<open>s\<close>: the
  literal prefix, the longest run (not empty) of characters other than the quote, then
  the quote and the closing bracket. The result is the run, submatch 1.
\<close>

definition reDevice_at :: "string \<Rightarrow> string option" where
  "reDevice_at s =
     (let p = ''ncs:device[ncs:name='' @ [quote] in
      if prefix p s then
        (let rest = drop (length p) s;
             devName = takeWhile (\<lambda>c. c \<noteq> quote) rest
         in if devName \<noteq> [] \<and> prefix [quote, CHR '']''] (dropWhile (\<lambda>c. c \<noteq> quote) rest)
            then Some devName else None)
      else None)"

fun reDevice_FindStringSubmatch :: "string \<Rightarrow> string option" where
  "reDevice_FindStringSubmatch [] = reDevice_at []"
| "reDevice_FindStringSubmatch (c # cs) =
     (case reDevice_at (c # cs) of
        Some devName \<Rightarrow> Some devName
      | None \<Rightarrow> reDevice_FindStringSubmatch cs)"

subsection \<open>The decoded event structures\<close>

text \<open>
  The structures \<^verbatim>\<open>xml.Unmarshal\<close> fills in. The fields of \<^verbatim>\<open>NetconfConfigChange\<close>
  carry the prefix \<open>cc_\<close>, those of \<^verbatim>\<open>NetconfSessionStart\<close> the prefix \<open>ss_\<close>; of
  \<^verbatim>\<open>NcsCommitQueueProgress\<close> the record keeps the fields its handler reads, with
  \<open>CompletedDevices\<close> as the list of the devices' names. \<^verbatim>\<open>NotificationInner\<close> is without
  its field \<^verbatim>\<open>EventTime\<close>, which no handler reads. A pointer that is nil when the event
  is absent is an \<open>option\<close>.
\<close>

record NetconfConfigChange =
  cc_User :: string
  cc_Host :: string
  cc_Datastore :: string
  cc_Edits :: "NetconfConfigChangeEdit list"

record NetconfSessionStart =
  ss_User :: string
  ss_SessionId :: go_int
  ss_Host :: string

record NcsCommitQueueProgress =
  Id :: nat
  Tag :: string
  State :: string
  CompletedDevices :: "string list"

record NotificationInner =
  NcsCommitQueueProgress :: "NcsCommitQueueProgress option"
  NetconfSessionStart :: "NetconfSessionStart option"
  NetconfConfigChange :: "NetconfConfigChange option"

text \<open>
  Go's \<^verbatim>\<open>xml.Unmarshal\<close> into a \<^verbatim>\<open>NotificationInner\<close>, a parameter of the handlers that
  call it: the error, or the decoded structure.
\<close>

type_synonym xml_Unmarshal = "string \<Rightarrow> error + NotificationInner"

subsection \<open>The default handler\<close>

definition handlerDefault :: "Notification \<Rightarrow> error + (string \<times> Notification)" where
  "handlerDefault n =
     (let innerClean = xmlInnerCleanup (Inner n);
          n' = (case reEventName_FindStringSubmatch innerClean of
                  Some name \<Rightarrow> n\<lparr>EventName := name\<rparr>
                | None \<Rightarrow> n)
      in Inr (''inner structure:'' @ [newline] @ innerClean @ [newline], n'))"

subsection \<open>The handler of the stream ncs-events\<close>

definition handlerNcsEvents ::
  "xml_Unmarshal \<Rightarrow> bool \<Rightarrow> Notification \<Rightarrow> error + (string \<times> Notification)" where
  "handlerNcsEvents unmarshal noColor n =
     (case unmarshal (''<root>'' @ Inner n @ ''</root>'') of
        Inl err \<Rightarrow> Inl err
      | Inr nInner \<Rightarrow>
          (case NcsCommitQueueProgress nInner of
             None \<Rightarrow> Inr (''(handler) no known event data found!'', n)
           | Some p \<Rightarrow>
               (let n1 = setEventType EVENT_NCS_COMMIT_QUEUE_PROGRESS n;
                    msg = ''['' @ stringColorize noColor (EventType_String (EventType n1)) COLOR_EVENT @ '']''
                          @ '' [id '' @ Sprintf_d (Id p) @ '']''
                          @ '' '' @ Tag p @ '' - '' @ State p
                in Inr (msg, n1\<lparr>Devices := Devices n1 @ CompletedDevices p\<rparr>))))"

subsection \<open>The handler of the stream NETCONF\<close>

text \<open>
  \<^verbatim>\<open>sort.Search(n, f)\<close> is a binary search between \<open>i\<close> and \<open>j\<close> (first called with \<open>0\<close>
  and \<open>n\<close>); \<^verbatim>\<open>sort.SearchStrings(a, x)\<close> searches with \<^verbatim>\<open>a[i] >= x\<close>.
\<close>

function sort_Search :: "(nat \<Rightarrow> bool) \<Rightarrow> nat \<Rightarrow> nat \<Rightarrow> nat" where
  "sort_Search f i j =
     (if i < j then
        (let h = (i + j) div 2
         in if \<not> f h then sort_Search f (h + 1) j else sort_Search f i h)
      else i)"
  by pat_completeness auto
termination
  by (relation "measure (\<lambda>(f, i, j). j - i)") auto

declare sort_Search.simps [simp del]

definition sort_SearchStrings :: "string list \<Rightarrow> string \<Rightarrow> nat" where
  "sort_SearchStrings a x = sort_Search (\<lambda>i. a ! i \<ge> x) 0 (length a)"

text \<open>\<^verbatim>\<open>sort.Strings\<close>: the strings in increasing (bytewise lexicographic) order.\<close>

definition sort_Strings :: "string list \<Rightarrow> string list" where
  "sort_Strings a = sort a"

text \<open>
  \<^verbatim>\<open>append(m[k], edit)\<close> stored back under \<open>k\<close>: a key that is missing reads as the nil
  slice.
\<close>

definition append_edit ::
  "(string \<rightharpoonup> NetconfConfigChangeEdit list) \<Rightarrow> string \<Rightarrow> NetconfConfigChangeEdit
     \<Rightarrow> (string \<rightharpoonup> NetconfConfigChangeEdit list)" where
  "append_edit m k edit = m(k \<mapsto> (case m k of None \<Rightarrow> [] | Some es \<Rightarrow> es) @ [edit])"

text \<open>One round of the loop over the edits of a configuration change.\<close>

definition netconf_edit ::
  "bool \<Rightarrow> NetconfConfigChangeEdit \<Rightarrow> string \<times> Notification \<Rightarrow> string \<times> Notification" where
  "netconf_edit noColor e = (\<lambda>(msg, n).
     (let edit = \<lparr>Target = Target e, Operation = Operation e\<rparr>;
          n1 = n\<lparr>Edits := Edits n @ [edit]\<rparr>;
          n2 = (case reDevice_FindStringSubmatch (Target edit) of
                  Some devName \<Rightarrow>
                    (let n1' = (if sort_SearchStrings (Devices n1) devName = length (Devices n1)
                                then n1\<lparr>Devices := sort_Strings (Devices n1 @ [devName])\<rparr>
                                else n1)
                     in n1'\<lparr>DeviceEdits := append_edit (DeviceEdits n1') devName edit\<rparr>)
                | None \<Rightarrow> n1\<lparr>DeviceEdits := append_edit (DeviceEdits n1) ''none'' edit\<rparr>)
      in (msg @ [newline] @ stringColorize noColor (Operation edit) COLOR_HIGHLIGHT
              @ '': '' @ Target edit, n2)))"

fun netconf_edits ::
  "bool \<Rightarrow> NetconfConfigChangeEdit list \<Rightarrow> string \<times> Notification \<Rightarrow> string \<times> Notification" where
  "netconf_edits noColor [] st = st"
| "netconf_edits noColor (e # es) st = netconf_edits noColor es (netconf_edit noColor e st)"

definition handlerNetconf ::
  "xml_Unmarshal \<Rightarrow> bool \<Rightarrow> Notification \<Rightarrow> error + (string \<times> Notification)" where
  "handlerNetconf unmarshal noColor n =
     (case unmarshal (''<root>'' @ Inner n @ ''</root>'') of
        Inl err \<Rightarrow> Inl err
      | Inr nInner \<Rightarrow>
          (case NetconfSessionStart nInner of
             Some ss \<Rightarrow>
               (let n1 = (setEventType EVENT_NETCONF_SESSION_START n)\<lparr>User := ss_User ss, UserHost := ss_Host ss\<rparr>;
                    msg = ''['' @ stringColorize noColor (EventType_String (EventType n1)) COLOR_EVENT @ '']''
                          @ '' ['' @ stringColorize noColor ''user'' COLOR_HIGHLIGHT @ '' ''
                          @ User n1 @ ''@'' @ UserHost n1 @ '']''
                in Inr (msg, n1))
           | None \<Rightarrow>
               (case NetconfConfigChange nInner of
                  None \<Rightarrow> Inr (''(handler) no known event data found!'', n)
                | Some cc \<Rightarrow>
                    (let n1 = (setEventType EVENT_NETCONF_CONFIG_CHANGE n)
                                \<lparr>User := cc_User cc, UserHost := cc_Host cc, Datastore := cc_Datastore cc\<rparr>;
                         msg = ''['' @ stringColorize noColor (EventType_String (EventType n1)) COLOR_EVENT @ '']''
                               @ '' ['' @ stringColorize noColor ''user'' COLOR_HIGHLIGHT @ '' ''
                               @ User n1 @ ''@'' @ UserHost n1 @ '']''
                     in Inr (netconf_edits noColor (cc_Edits cc) (msg, n1))))))"

subsection \<open>Subscribers\<close>

datatype Handler = HandlerDefault | HandlerNcsEvents | HandlerNetconf

text \<open>
  \<^verbatim>\<open>streamSubscriber\<close>: \<open>handler\<close> is the method value the subscriber calls (\<open>None\<close> is
  the nil function). The channel \<^verbatim>\<open>done\<close> and the open reader are not fields here: what
  the subscriber reads from them is an argument of \<open>startSubscriber\<close>.
\<close>

record streamSubscriber =
  stream :: Stream
  url :: URL
  handler :: "Handler option"
  eventCount :: go_int

definition run_handler ::
  "xml_Unmarshal \<Rightarrow> bool \<Rightarrow> Handler \<Rightarrow> Notification \<Rightarrow> error + (string \<times> Notification)" where
  "run_handler unmarshal noColor h n =
     (case h of
        HandlerDefault \<Rightarrow> handlerDefault n
      | HandlerNcsEvents \<Rightarrow> handlerNcsEvents unmarshal noColor n
      | HandlerNetconf \<Rightarrow> handlerNetconf unmarshal noColor n)"

subsection \<open>The enriched webhook payload\<close>

text \<open>The structure \<^verbatim>\<open>enrichData\<close>; its fields carry the prefix \<open>ed_\<close>.\<close>

record enrichData =
  ed_Source :: string
  ed_Stream :: string
  ed_EventName :: string
  ed_User :: string
  ed_Host :: string
  ed_Datastore :: string
  ed_Devices :: "string list"
  ed_Edits :: "string \<rightharpoonup> NetconfConfigChangeEdit list"
  ed_Event :: string

text \<open>The body that \<^verbatim>\<open>enrichData\<close> builds before it is encoded.\<close>

definition enrichData_body :: "streamSubscriber \<Rightarrow> Notification \<Rightarrow> string \<Rightarrow> enrichData" where
  "enrichData_body sub n source =
     \<lparr>ed_Source = Host (url sub), ed_Stream = Name (stream sub), ed_EventName = EventName n,
      ed_User = User n, ed_Host = UserHost n, ed_Datastore = Datastore n,
      ed_Devices = Devices n, ed_Edits = DeviceEdits n,
      ed_Event = ''<nsoevent>'' @ source @ ''</nsoevent>''\<rparr>"

text \<open>
  \<^verbatim>\<open>enrichData\<close>; \<open>jsonMarshal\<close> is the program's \<^verbatim>\<open>jsonMarshal\<close>, Go's JSON encoder with
  HTML escaping turned off, and an error of the encoder is a panic.
\<close>

definition enrichData ::
  "(enrichData \<Rightarrow> error + string) \<Rightarrow> streamSubscriber \<Rightarrow> Notification \<Rightarrow> string \<Rightarrow> error + string" where
  "enrichData jsonMarshal sub n source =
     (case jsonMarshal (enrichData_body sub n source) of
        Inl err \<Rightarrow> Inl (Panic ''(Notification:enrichData) jsonMarshal'')
      | Inr result \<Rightarrow> Inr result)"

subsection \<open>Handling one notification\<close>

text \<open>
  The loop over the webhooks of the subscriber's stream: the positions of the hooks that
  fire on the payload \<open>innerClean\<close>, in order.
\<close>

fun fire_hooks ::
  "regexp \<Rightarrow> webhook list \<Rightarrow> nat list \<Rightarrow> Notification \<Rightarrow> string \<Rightarrow> error + nat list" where
  "fire_hooks re hooks [] n innerClean = Inr []"
| "fire_hooks re hooks (i # is) n innerClean =
     (case shouldFire re (hooks ! i) n innerClean of
        Inl err \<Rightarrow> Inl err
      | Inr b \<Rightarrow>
          (case fire_hooks re hooks is n innerClean of
             Inl err \<Rightarrow> Inl err
           | Inr fired \<Rightarrow> Inr (if b then i # fired else fired)))"

text \<open>
  The task \<open>startSubscriber\<close> starts for a notification it received (its handler \<open>h\<close>
  is not nil): the handler runs, and when it succeeds the payload is built from the
  cleaned inner payload and every hook of the stream is asked whether it fires, on that
  payload. A handler's error is logged and fires nothing.
\<close>

datatype handled =
    HandlerError error          \<comment> \<open>the handler failed: logged, nothing fired\<close>
  | Fired string "nat list"     \<comment> \<open>the handler's message, and the hooks fired\<close>

definition handle_notification ::
  "regexp \<Rightarrow> xml_Unmarshal \<Rightarrow> (enrichData \<Rightarrow> error + string) \<Rightarrow> bool \<Rightarrow> webhook list
     \<Rightarrow> streamSubscriber \<Rightarrow> Handler \<Rightarrow> Notification \<Rightarrow> error + handled" where
  "handle_notification re unmarshal jsonMarshal noColor hooks sub h n =
     (case run_handler unmarshal noColor h n of
        Inl err \<Rightarrow> Inr (HandlerError err)
      | Inr (msg, n') \<Rightarrow>
          (case enrichData jsonMarshal sub n' (xmlInnerCleanup (Inner n')) of
             Inl err \<Rightarrow> Inl err
           | Inr innerClean \<Rightarrow>
               (case fire_hooks re hooks (Webhooks (stream sub)) n' innerClean of
                  Inl err \<Rightarrow> Inl err
                | Inr fired \<Rightarrow> Inr (Fired msg fired))))"

subsection \<open>Running one subscriber\<close>

text \<open>
  What one round of the subscriber's \<^verbatim>\<open>select\<close> yields: the cancellation (\<^verbatim>\<open>sub.done()\<close>
  is readable), a notification from the channel, or the channel found closed.
\<close>

datatype select_case = Done | Received Notification | Closed

text \<open>
  The subscriber's loop over the rounds of its \<^verbatim>\<open>select\<close>, given as a list: the pair the
  function returns, or \<open>None\<close> while the loop still waits after the last round given.
  \<^verbatim>\<open>sub.eventCount++\<close> is an addition of machine integers, which wraps around.
\<close>

fun subscriber_loop :: "streamSubscriber \<Rightarrow> select_case list \<Rightarrow> (go_int \<times> error option) option" where
  "subscriber_loop sub [] = None"
| "subscriber_loop sub (Done # rounds) = Some (eventCount sub, None)"
| "subscriber_loop sub (Closed # rounds) =
     Some (eventCount sub, Some (Error ''notification channel closed/unavailable''))"
| "subscriber_loop sub (Received n # rounds) =
     (if handler sub \<noteq> None then subscriber_loop (sub\<lparr>eventCount := eventCount sub + 1\<rparr>) rounds
      else subscriber_loop sub rounds)"

text \<open>
  \<^verbatim>\<open>startSubscriber\<close>; \<open>openStream\<close> is the server's \<^verbatim>\<open>openStream\<close>, the HTTP request that
  opens the stream.
\<close>

definition startSubscriber ::
  "(URL \<Rightarrow> error + 'reader) \<Rightarrow> streamSubscriber \<Rightarrow> select_case list
     \<Rightarrow> (go_int \<times> error option) option" where
  "startSubscriber openStream sub rounds =
     (case openStream (url sub) of
        Inl err \<Rightarrow> Some (0, Some err)
      | Inr reader \<Rightarrow> subscriber_loop sub rounds)"

subsection \<open>Building the subscribers\<close>

text \<open>
  The three nested loops of \<^verbatim>\<open>startSubscribers\<close>, innermost first. The state is the map
  \<open>found\<close> and the list \<^verbatim>\<open>streamSubscriberList\<close>.
\<close>

fun subscribe_access ::
  "string \<Rightarrow> Stream \<Rightarrow> Access list \<Rightarrow> (string \<rightharpoonup> bool) \<times> streamSubscriber list
     \<Rightarrow> (string \<rightharpoonup> bool) \<times> streamSubscriber list" where
  "subscribe_access requestStream availStream [] st = st"
| "subscribe_access requestStream availStream (a # as) (found, subs) =
     subscribe_access requestStream availStream as
       (if EncodingType a = ENCODING_XML then
          (found(requestStream \<mapsto> True),
           subs @ [\<lparr>stream = availStream, url = LocationURL a,
                    handler = Some HandlerDefault, eventCount = 0\<rparr>])
        else (found, subs))"

fun subscribe_streams ::
  "string \<Rightarrow> Stream list \<Rightarrow> (string \<rightharpoonup> bool) \<times> streamSubscriber list
     \<Rightarrow> (string \<rightharpoonup> bool) \<times> streamSubscriber list" where
  "subscribe_streams requestStream [] st = st"
| "subscribe_streams requestStream (availStream # streams) st =
     subscribe_streams requestStream streams
       (if fuzzyNameMatch requestStream (Name availStream)
        then subscribe_access requestStream availStream (Access availStream) st
        else st)"

fun subscribe_names ::
  "string list \<Rightarrow> Stream list \<Rightarrow> (string \<rightharpoonup> bool) \<times> streamSubscriber list
     \<Rightarrow> (string \<rightharpoonup> bool) \<times> streamSubscriber list" where
  "subscribe_names [] streams st = st"
| "subscribe_names (requestStream # names) streams (found, subs) =
     subscribe_names names streams
       (subscribe_streams requestStream streams (found(requestStream \<mapsto> False), subs))"

definition registerHandler :: "string \<Rightarrow> Handler \<Rightarrow> streamSubscriber list \<Rightarrow> streamSubscriber list" where
  "registerHandler streamName h sl =
     map (\<lambda>s. if Name (stream s) = streamName then s\<lparr>handler := Some h\<rparr> else s) sl"

text \<open>
  The names \<^verbatim>\<open>startSubscribers\<close> works with: the names asked for, or every stream of the
  server when none was asked for.
\<close>

definition requested_names :: "string list \<Rightarrow> Stream list \<Rightarrow> string list" where
  "requested_names streamNames streams =
     (if length streamNames = 0 then streamNames @ map Name streams else streamNames)"

text \<open>
  \<^verbatim>\<open>startSubscribers\<close> up to the point where it starts the subscribers: the error it
  returns, or the subscribers it goes on to run. \<open>streamNames\<close> is \<^verbatim>\<open>Config.streamNames\<close>
  and \<open>subs0\<close> the global list \<^verbatim>\<open>streamSubscriberList\<close> at the call (empty when the
  program starts).
\<close>

definition startSubscribers ::
  "string list \<Rightarrow> Stream list \<Rightarrow> streamSubscriber list \<Rightarrow> error + streamSubscriber list" where
  "startSubscribers streamNames streams subs0 =
     (let names = requested_names streamNames streams;
          (found, subs) = subscribe_names names streams (Map.empty, subs0)
      in if length names > length subs then Inl (Error ''stream(s) not found'')
         else Inr (registerHandler ''NETCONF'' HandlerNetconf
                     (registerHandler ''ncs-events'' HandlerNcsEvents subs)))"

subsection \<open>Notions the properties are stated with\<close>

text \<open>
  The key under which the NETCONF handler groups an edit: the device name found in its
  target, or \<open>none\<close>.
\<close>

definition edit_key :: "NetconfConfigChangeEdit \<Rightarrow> string" where
  "edit_key e = (case reDevice_FindStringSubmatch (Target e) of Some devName \<Rightarrow> devName | None \<Rightarrow> ''none'')"

text \<open>
  The text \<open>data\<close> contains \<^verbatim>\<open><T\<close> followed by white space or \<^verbatim>\<open>>\<close>: as the property
  reads, and as a scan of the text.
\<close>

definition contains_open_tag :: "string \<Rightarrow> string \<Rightarrow> bool" where
  "contains_open_tag T data =
     (\<exists>before c after. data = before @ ''<'' @ T @ [c] @ after \<and> (isspace c \<or> c = CHR ''>''))"

definition open_tag_at :: "string \<Rightarrow> string \<Rightarrow> bool" where
  "open_tag_at T s =
     (prefix (''<'' @ T) s \<and>
      (case drop (length (''<'' @ T)) s of [] \<Rightarrow> False | c # after \<Rightarrow> isspace c \<or> c = CHR ''>''))"

fun has_open_tag :: "string \<Rightarrow> string \<Rightarrow> bool" where
  "has_open_tag T [] = False"
| "has_open_tag T (c # cs) = (open_tag_at T (c # cs) \<or> has_open_tag T cs)"

text \<open>
  What a consumer of the webhook does to the field \<^verbatim>\<open>event\<close>: the text between the outer
  tags \<^verbatim>\<open><nsoevent>\<close> and \<^verbatim>\<open></nsoevent>\<close>, when the field has them.
\<close>

definition strip_nsoevent :: "string \<Rightarrow> string option" where
  "strip_nsoevent s =
     (if prefix ''<nsoevent>'' s \<and> suffix ''</nsoevent>'' (drop (length ''<nsoevent>'') s)
      then Some (take (length s - length ''<nsoevent>'' - length ''</nsoevent>'')
                      (drop (length ''<nsoevent>'') s))
      else None)"

text \<open>
  The requested name matches a stream of the server that has an access with the XML
  encoding: the streams for which \<^verbatim>\<open>startSubscribers\<close> builds a subscriber.
\<close>

definition matches_xml_stream :: "string \<Rightarrow> Stream list \<Rightarrow> bool" where
  "matches_xml_stream requestStream streams =
     list_ex (\<lambda>st. fuzzyNameMatch requestStream (Name st) \<and>
                    list_ex (\<lambda>a. EncodingType a = ENCODING_XML) (Access st)) streams"

definition matches_stream :: "string \<Rightarrow> Stream list \<Rightarrow> bool" where
  "matches_stream requestStream streams =
     list_ex (\<lambda>st. fuzzyNameMatch requestStream (Name st)) streams"

text \<open>A node entry of a filter that is a map without the key \<^verbatim>\<open>name\<close>.\<close>

definition nameless :: "(string \<rightharpoonup> string) option \<Rightarrow> bool" where
  "nameless e = (case e of None \<Rightarrow> False | Some m \<Rightarrow> m ''name'' = None)"

text \<open>The hook's filter has no nil entry among its nodes.\<close>

definition no_nil_nodes :: "webhook \<Rightarrow> bool" where
  "no_nil_nodes hook =
     (case wh_Filter hook of None \<Rightarrow> True | Some f \<Rightarrow> list_all (\<lambda>e. e \<noteq> None) (Node f))"

text \<open>
  The hook's filter has a node whose value does not compile as a regular expression.
\<close>

definition bad_value :: "regexp \<Rightarrow> webhook \<Rightarrow> bool" where
  "bad_value re hook =
     (case wh_Filter hook of
        None \<Rightarrow> False
      | Some f \<Rightarrow>
          list_ex (\<lambda>e. case e of
                         None \<Rightarrow> False
                       | Some m \<Rightarrow> (case m ''value'' of None \<Rightarrow> False | Some v \<Rightarrow> re v = None))
                  (Node f))"

text \<open>
  A subscriber as \<^verbatim>\<open>startSubscribers\<close> builds it: it has a handler and has counted no
  event.
\<close>

definition fresh_sub :: "streamSubscriber \<Rightarrow> bool" where
  "fresh_sub s = (handler s \<noteq> None \<and> eventCount s = 0)"

text \<open>
  The edits of \<open>es\<close> grouped by their key: under each key the edits that have it, in the
  order of \<open>es\<close>, and no entry for a key that no edit has.
\<close>

definition grouped :: "NetconfConfigChangeEdit list \<Rightarrow> (string \<rightharpoonup> NetconfConfigChangeEdit list)" where
  "grouped es k = (let g = filter (\<lambda>e. edit_key e = k) es in if g = [] then None else Some g)"

text \<open>
  A notification as the subscriber's decoder hands it to a handler: made by
  \<open>newNotification\<close>, with no device and no edit yet.
\<close>

definition fresh_notification :: "Notification \<Rightarrow> bool" where
  "fresh_notification n = (Devices n = [] \<and> Edits n = [] \<and> DeviceEdits n = Map.empty)"

subsection \<open>The library on the inputs of the examples\<close>

text \<open>
  The examples below run the program on concrete inputs, so they need the library's
  answers on those inputs. \<open>regexp_presence\<close> answers as Go's \<^verbatim>\<open>regexp\<close> does on the
  patterns \<^verbatim>\<open><T[\s>]+\<close> whose \<open>T\<close> is made of letters, digits, \<^verbatim>\<open>-\<close>, \<^verbatim>\<open>_\<close> and \<^verbatim>\<open>:\<close>
  (characters that stand for themselves in a pattern): the pattern compiles, and it
  matches a text that contains \<^verbatim>\<open><T\<close> followed by white space or \<^verbatim>\<open>>\<close>. It rejects
  every other pattern; of those the examples only use \<^verbatim>\<open>(\<close>, an open group that is never
  closed, which Go rejects too.
\<close>

definition name_char :: "char \<Rightarrow> bool" where
  "name_char c =
     (let k = (of_char c :: nat)
      in (48 \<le> k \<and> k \<le> 57) \<or> (65 \<le> k \<and> k \<le> 90) \<or> (97 \<le> k \<and> k \<le> 122)
         \<or> c = CHR ''-'' \<or> c = CHR ''_'' \<or> c = CHR '':'')"

definition regexp_presence :: regexp where
  "regexp_presence pattern =
     (case pattern of
        [] \<Rightarrow> None
      | c # rest \<Rightarrow>
          (let k = length rest - 6; T = take k rest
           in if c = CHR ''<'' \<and> 6 \<le> length rest
                 \<and> drop k rest = ''['' @ [backslash] @ ''s>]+'' \<and> list_all name_char T
              then Some (has_open_tag T) else None))"

text \<open>
  \<open>jsonMarshal_ascii\<close> encodes a body as Go's encoder does (HTML escaping off) when its
  strings hold only printable ASCII characters, newline, return and tab: the fields in
  the order of the structure, the empty ones marked \<^verbatim>\<open>omitempty\<close> left out, the keys of
  the map in increasing order, and a newline last. No other body is used with it.
\<close>

definition dquote :: char where
  "dquote = CHR 0x22"

definition json_escape :: "char \<Rightarrow> string" where
  "json_escape c =
     (if c = dquote then [backslash, dquote]
      else if c = backslash then [backslash, backslash]
      else if c = newline then [backslash, CHR ''n'']
      else if c = CHR 0x0D then [backslash, CHR ''r'']
      else if c = CHR 0x09 then [backslash, CHR ''t'']
      else [c])"

definition json_string :: "string \<Rightarrow> string" where
  "json_string s = [dquote] @ concat (map json_escape s) @ [dquote]"

fun join :: "string \<Rightarrow> string list \<Rightarrow> string" where
  "join sep [] = []"
| "join sep [x] = x"
| "join sep (x # y # ys) = x @ sep @ join sep (y # ys)"

definition json_field :: "string \<Rightarrow> string \<Rightarrow> string" where
  "json_field k v = json_string k @ '':'' @ v"

definition json_edit :: "NetconfConfigChangeEdit \<Rightarrow> string" where
  "json_edit e =
     ''{'' @ json_field ''target'' (json_string (Target e)) @ '',''
          @ json_field ''operation'' (json_string (Operation e)) @ ''}''"

definition json_edits :: "(string \<rightharpoonup> NetconfConfigChangeEdit list) \<Rightarrow> string" where
  "json_edits m =
     ''{'' @ join '',''
              (map (\<lambda>k. json_field k (''['' @ join '','' (map json_edit (the (m k))) @ '']''))
                   (sorted_list_of_set (dom m))) @ ''}''"

definition json_char :: "char \<Rightarrow> bool" where
  "json_char c =
     (c = newline \<or> c = CHR 0x0D \<or> c = CHR 0x09 \<or> (32 \<le> (of_char c :: nat) \<and> (of_char c :: nat) \<le> 126))"

definition json_plain :: "enrichData \<Rightarrow> bool" where
  "json_plain body =
     (list_all json_char
        (ed_Source body @ ed_Stream body @ ed_EventName body @ ed_User body @ ed_Host body
           @ ed_Datastore body @ concat (ed_Devices body) @ ed_Event body)
      \<and> finite (dom (ed_Edits body))
      \<and> (\<forall>k \<in> dom (ed_Edits body).
            list_all json_char (k @ concat (map (\<lambda>e. Target e @ Operation e) (the (ed_Edits body k))))))"

definition jsonMarshal_ascii :: "enrichData \<Rightarrow> error + string" where
  "jsonMarshal_ascii body =
     (if json_plain body then
        Inr (''{'' @ join '',''
               ([json_field ''source'' (json_string (ed_Source body)),
                 json_field ''stream'' (json_string (ed_Stream body)),
                 json_field ''eventname'' (json_string (ed_EventName body))]
                @ (if ed_User body = [] then [] else [json_field ''user'' (json_string (ed_User body))])
                @ (if ed_Host body = [] then [] else [json_field ''host'' (json_string (ed_Host body))])
                @ (if ed_Datastore body = [] then []
                   else [json_field ''datastore'' (json_string (ed_Datastore body))])
                @ (if ed_Devices body = [] then []
                   else [json_field ''devices'' (''['' @ join '','' (map json_string (ed_Devices body)) @ '']'')])
                @ (if dom (ed_Edits body) = {} then [] else [json_field ''edits'' (json_edits (ed_Edits body))])
                @ [json_field ''event'' (json_string (ed_Event body))])
             @ ''}'' @ [newline])
      else Inl (Error ''json: a body outside the printable ASCII bodies''))"

text \<open>An \<^verbatim>\<open>xml.Unmarshal\<close> that decodes its input to the structure \<open>nInner\<close>.\<close>

definition decodes_to :: "NotificationInner \<Rightarrow> xml_Unmarshal" where
  "decodes_to nInner source = Inr nInner"

subsection \<open>Inputs of the examples\<close>

text \<open>A webhook as the configuration file of the README defines one, with the filter \<open>f\<close>.\<close>

definition hook_with :: "Filter option \<Rightarrow> webhook" where
  "hook_with f =
     \<lparr>Stream = ''NETCONF'', Disable = False,
      Url = ''http://192.168.1.108:18080/generic-webhook-trigger/invoke'',
      wh_User = [], ApiToken = [], Token = ''NETGITOPS-Pipeline'',
      wh_Filter = f, StreamList = [], targetURL = None\<rparr>"

text \<open>
  A decoded session start, and the notification the NETCONF handler makes of it.
\<close>

definition session_start_inner :: NotificationInner where
  "session_start_inner =
     \<lparr>NcsCommitQueueProgress = None,
      NetconfSessionStart = Some \<lparr>ss_User = ''admin'', ss_SessionId = 0, ss_Host = ''127.0.0.1''\<rparr>,
      NetconfConfigChange = None\<rparr>"

definition session_start :: Notification where
  "session_start =
     (setEventType EVENT_NETCONF_SESSION_START newNotification)\<lparr>User := ''admin'', UserHost := ''127.0.0.1''\<rparr>"

text \<open>
  Go's \<^verbatim>\<open>url.Parse\<close> on the two addresses of the examples: the address of the README's
  webhooks parses, and \<^verbatim>\<open>:invalid\<close> does not (it has no scheme). No other address is used
  with it.
\<close>

definition url_Parse_example :: "string \<Rightarrow> error + URL" where
  "url_Parse_example s =
     (if s = ''http://192.168.1.108:18080/generic-webhook-trigger/invoke''
      then Inr \<lparr>Host = ''192.168.1.108:18080'', URL_String = s\<rparr>
      else Inl (Error ''missing protocol scheme''))"

text \<open>The stream NETCONF as the server lists it, with its two accesses.\<close>

definition netconf_stream :: Stream where
  "netconf_stream =
     \<lparr>Name = ''NETCONF'', Description = ''default NETCONF event stream'', ReplaySupport = False,
      Access =
        [\<lparr>EncodingType = ENCODING_XML, Encoding = ''xml'',
          LocationURL = \<lparr>Host = ''172.16.1.1:48888'',
                         URL_String = ''http://172.16.1.1:48888/restconf/streams/NETCONF/xml''\<rparr>,
          Location = ''http://localhost:8080/restconf/streams/NETCONF/xml''\<rparr>,
         \<lparr>EncodingType = ENCODING_JSON, Encoding = ''json'',
          LocationURL = \<lparr>Host = ''172.16.1.1:48888'',
                         URL_String = ''http://172.16.1.1:48888/restconf/streams/NETCONF/json''\<rparr>,
          Location = ''http://localhost:8080/restconf/streams/NETCONF/json''\<rparr>],
      Webhooks = []\<rparr>"

text \<open>
  Two webhooks that validation disables: one whose address does not parse, and one
  whose filter has the value \<^verbatim>\<open>(\<close>, which is not a regular expression.
\<close>

definition bad_url_hook :: webhook where
  "bad_url_hook = (hook_with None)\<lparr>Url := '':invalid''\<rparr>"

definition bad_value_hook :: webhook where
  "bad_value_hook =
     hook_with (Some \<lparr>Event = [], Node = [Some [''name'' \<mapsto> ''target'', ''value'' \<mapsto> ''('']]\<rparr>)"

text \<open>
  The subscriber of the stream NETCONF on its XML access, and a server that opens that
  address and refuses every other connection.
\<close>

definition netconf_subscriber :: streamSubscriber where
  "netconf_subscriber =
     \<lparr>stream = netconf_stream,
      url = \<lparr>Host = ''172.16.1.1:48888'',
             URL_String = ''http://172.16.1.1:48888/restconf/streams/NETCONF/xml''\<rparr>,
      handler = Some HandlerNetconf, eventCount = 0\<rparr>"

definition openStream_example :: "URL \<Rightarrow> error + unit" where
  "openStream_example u =
     (if Host u = ''172.16.1.1:48888'' then Inr () else Inl (Error ''connection refused''))"

text \<open>
  The configuration change of the README: the edit targets of the devices \<open>ds\<close>, in
  that order, each replaced by the user admin.
\<close>

definition device_target :: "string \<Rightarrow> string" where
  "device_target d =
     ''/ncs:devices/ncs:device[ncs:name='' @ [quote] @ d @ [quote]
       @ '']/ncs:config/ios:banner/ios:motd''"

definition device_edit :: "string \<Rightarrow> NetconfConfigChangeEdit" where
  "device_edit d = \<lparr>Target = device_target d, Operation = ''replace''\<rparr>"

definition config_change :: "string list \<Rightarrow> NotificationInner" where
  "config_change ds =
     \<lparr>NcsCommitQueueProgress = None, NetconfSessionStart = None,
      NetconfConfigChange =
        Some \<lparr>cc_User = ''admin'', cc_Host = ''127.0.0.1'', cc_Datastore = ''running'',
              cc_Edits = map device_edit ds\<rparr>\<rparr>"

text \<open>The inner payload of an event that no handler knows.\<close>

definition custom_event :: string where
  "custom_event = ''<eventTime>2021-01-01T00:00:00Z</eventTime><custom-event/>''"

text \<open>
  The same event as the stream delivers it in two lines: the second line starts with
  the marker \<^verbatim>\<open>data: \<close> of the event stream, which the decoder leaves in the inner
  payload.
\<close>

definition sse_event :: string where
  "sse_event = ''<eventTime>2021-01-01T00:00:00Z</eventTime>'' @ [newline] @ ''data: <custom-event/>''"

text \<open>
  The stream NETCONF offered with the JSON encoding only, and the two streams
  \<^verbatim>\<open>ncs-events\<close> and \<^verbatim>\<open>ncs-alarms\<close>, each with one XML access.
\<close>

definition json_only_stream :: Stream where
  "json_only_stream = netconf_stream\<lparr>Access := [Access netconf_stream ! 1]\<rparr>"

definition ncs_stream :: "string \<Rightarrow> Stream" where
  "ncs_stream name =
     \<lparr>Name = name, Description = [], ReplaySupport = False,
      Access =
        [\<lparr>EncodingType = ENCODING_XML, Encoding = ''xml'',
          LocationURL = \<lparr>Host = ''172.16.1.1:48888'',
                         URL_String = ''http://172.16.1.1:48888/restconf/streams/'' @ name @ ''/xml''\<rparr>,
          Location = ''http://localhost:8080/restconf/streams/'' @ name @ ''/xml''\<rparr>],
      Webhooks = []\<rparr>"

text \<open>
  A subscriber of the stream \<^verbatim>\<open>ncs-alarms\<close>, which the default handler serves, with one
  webhook attached, and that webhook: its filter asks for the tag \<^verbatim>\<open>nsoevent\<close> to be
  present.
\<close>

definition alarms_subscriber :: streamSubscriber where
  "alarms_subscriber =
     \<lparr>stream = (ncs_stream ''ncs-alarms'')\<lparr>Webhooks := [0]\<rparr>,
      url = \<lparr>Host = ''172.16.1.1:48888'',
             URL_String = ''http://172.16.1.1:48888/restconf/streams/ncs-alarms/xml''\<rparr>,
      handler = Some HandlerDefault, eventCount = 0\<rparr>"

definition nsoevent_hook :: webhook where
  "nsoevent_hook =
     (hook_with (Some \<lparr>Event = [], Node = [Some [''name'' \<mapsto> ''nsoevent'']]\<rparr>))
       \<lparr>Stream := ''ncs-alarms'', StreamList := [0]\<rparr>"

text \<open>
  The payload of the webhook for the event \<open>custom_event\<close> on that subscriber, as the
  JSON encoder writes it.
\<close>

definition alarms_payload :: string where
  "alarms_payload =
     ''{'' @ [dquote] @ ''source'' @ [dquote] @ '':'' @ [dquote] @ ''172.16.1.1:48888'' @ [dquote]
      @ '','' @ [dquote] @ ''stream'' @ [dquote] @ '':'' @ [dquote] @ ''ncs-alarms'' @ [dquote]
      @ '','' @ [dquote] @ ''eventname'' @ [dquote] @ '':'' @ [dquote] @ ''custom-event/'' @ [dquote]
      @ '','' @ [dquote] @ ''event'' @ [dquote] @ '':'' @ [dquote]
      @ ''<nsoevent>'' @ custom_event @ ''</nsoevent>'' @ [dquote] @ ''}'' @ [newline]"

section \<open>Properties\<close>

subsection \<open>The filter: null filters, event names, entries without a name\<close>

text \<open>
  C6. A webhook with no filter matches. A filter whose event name is not empty and
  differs from the notification's event name gives false whatever its node conditions
  are (they are not evaluated: the result does not depend on the regular expression
  library, and a nil entry or a pattern that does not compile cannot make it panic). A
  filter with no node condition whose event name is empty or equal to the
  notification's gives true on every payload. A notification that the NETCONF handler
  classifies as a session start has the event name \<^verbatim>\<open>netconf-session-start\<close>, and a
  webhook filtering on \<^verbatim>\<open>netconf-config-change\<close> does not fire for it.
\<close>

theorem filter_null_and_event:
  "(wh_Filter hook = None \<longrightarrow> filter_webhook re hook n data = Inr True)
   \<and> (wh_Filter hook = Some f \<and> Event f \<noteq> [] \<and> Event f \<noteq> EventName n
        \<longrightarrow> filter_webhook re hook n data = Inr False)
   \<and> (wh_Filter hook = Some f \<and> Node f = [] \<and> (Event f = [] \<or> Event f = EventName n)
        \<longrightarrow> filter_webhook re hook n data = Inr True)
   \<and> (wh_Filter hook = Some f \<and> Event f = ''netconf-config-change''
          \<and> unmarshal (''<root>'' @ Inner n0 @ ''</root>'') = Inr nInner
          \<and> NetconfSessionStart nInner = Some ss
        \<longrightarrow> (\<exists>msg n'. handlerNetconf unmarshal noColor n0 = Inr (msg, n')
               \<and> EventName n' = ''netconf-session-start''
               \<and> shouldFire re hook n' data = Inr False))"
  by (auto simp: filter_webhook_def shouldFire_def handlerNetconf_def setEventType_def Let_def)

theorem filter_null_and_event_witness:
  "filter_webhook regexp_presence (hook_with None) session_start ''<a/>'' = Inr True
   \<and> filter_webhook regexp_presence
        (hook_with (Some \<lparr>Event = ''netconf-config-change'', Node = [None]\<rparr>)) session_start ''<a/>''
       = Inr False
   \<and> filter_webhook regexp_presence
        (hook_with (Some \<lparr>Event = ''netconf-session-start'', Node = []\<rparr>)) session_start ''<a/>''
       = Inr True
   \<and> (\<exists>msg. handlerNetconf (decodes_to session_start_inner) True newNotification = Inr (msg, session_start))
   \<and> shouldFire regexp_presence
        (hook_with (Some \<lparr>Event = ''netconf-config-change'', Node = [None]\<rparr>)) session_start ''<a/>''
       = Inr False"
proof -
  let ?cc = "\<lparr>Event = ''netconf-config-change'', Node = [None]\<rparr>"
  let ?ss = "\<lparr>Event = ''netconf-session-start'', Node = []\<rparr>"
  have n: "EventName session_start = ''netconf-session-start''"
    by (simp add: session_start_def setEventType_def)
  have h: "handlerNetconf (decodes_to session_start_inner) True newNotification
             = Inr (''[netconf-session-start] [user admin@127.0.0.1]'', session_start)"
    by (simp add: handlerNetconf_def decodes_to_def session_start_inner_def session_start_def
          setEventType_def stringColorize_def Let_def)
  from filter_null_and_event [where hook = "hook_with None" and re = regexp_presence
          and n = session_start and data = "''<a/>''"]
  have 1: "filter_webhook regexp_presence (hook_with None) session_start ''<a/>'' = Inr True"
    by (simp add: hook_with_def)
  from filter_null_and_event [where hook = "hook_with (Some ?cc)" and f = ?cc
          and re = regexp_presence and n = session_start and data = "''<a/>''"] n
  have 2: "filter_webhook regexp_presence (hook_with (Some ?cc)) session_start ''<a/>'' = Inr False"
    by (simp add: hook_with_def)
  from filter_null_and_event [where hook = "hook_with (Some ?ss)" and f = ?ss
          and re = regexp_presence and n = session_start and data = "''<a/>''"] n
  have 3: "filter_webhook regexp_presence (hook_with (Some ?ss)) session_start ''<a/>'' = Inr True"
    by (simp add: hook_with_def)
  from filter_null_and_event [where hook = "hook_with (Some ?cc)" and f = ?cc
          and re = regexp_presence and data = "''<a/>''"
          and unmarshal = "decodes_to session_start_inner" and ?n0.0 = newNotification
          and nInner = session_start_inner
          and ss = "\<lparr>ss_User = ''admin'', ss_SessionId = 0, ss_Host = ''127.0.0.1''\<rparr>"
          and noColor = True] h
  have 4: "shouldFire regexp_presence (hook_with (Some ?cc)) session_start ''<a/>'' = Inr False"
    by (simp add: hook_with_def decodes_to_def session_start_inner_def)
  from 1 2 3 h 4 show ?thesis by blast
qed

lemma filter_nodes_skip_nameless:
  "m ''name'' = None \<Longrightarrow>
   filter_nodes re (before @ Some m # after) data = filter_nodes re (before @ after) data"
proof (induction before)
  case Nil
  then show ?case by simp
next
  case (Cons a before)
  then show ?case
    by (cases a) (simp_all split: option.splits)
qed

lemma filter_nodes_all_nameless:
  "list_all nameless ns \<Longrightarrow> filter_nodes re ns data = Inr True"
  by (induction ns) (auto simp: nameless_def split: option.splits)

text \<open>
  C10. A node entry without the key \<^verbatim>\<open>name\<close> is skipped: the filter gives the same
  result as the filter without that entry, whatever the entry holds otherwise. So a
  filter whose entries all lack a name gives true as soon as its event name is empty or
  equal to the notification's.
\<close>

theorem nameless_entries_skipped:
  "(wh_Filter hook = Some f \<and> Node f = before @ Some m # after \<and> m ''name'' = None
      \<longrightarrow> filter_webhook re hook n data
          = filter_webhook re (hook\<lparr>wh_Filter := Some (f\<lparr>Node := before @ after\<rparr>)\<rparr>) n data)
   \<and> (wh_Filter hook = Some f \<and> list_all nameless (Node f)
        \<and> (Event f = [] \<or> Event f = EventName n)
      \<longrightarrow> filter_webhook re hook n data = Inr True)"
proof -
  have skip: "m ''name'' = None \<Longrightarrow> filter_nodes re (before @ Some m # after) data
        = filter_nodes re (before @ after) data"
    by (rule filter_nodes_skip_nameless)
  have all: "list_all nameless (Node f) \<Longrightarrow> filter_nodes re (Node f) data = Inr True"
    by (rule filter_nodes_all_nameless)
  show ?thesis
    using skip all by (auto simp: filter_webhook_def)
qed

theorem nameless_entries_skipped_witness:
  "filter_webhook regexp_presence
      (hook_with (Some \<lparr>Event = [],
         Node = [Some [''name'' \<mapsto> ''edit''], Some [''value'' \<mapsto> ''running''], Some Map.empty]\<rparr>))
      session_start ''<edit>'' = Inr True
   \<and> filter_webhook regexp_presence
      (hook_with (Some \<lparr>Event = ''netconf-session-start'',
         Node = [Some [''value'' \<mapsto> ''running''], Some Map.empty]\<rparr>))
      session_start ''<a/>'' = Inr True"
  using nameless_entries_skipped
          [where hook = "hook_with (Some \<lparr>Event = [],
                   Node = [Some [''name'' \<mapsto> ''edit''], Some [''value'' \<mapsto> ''running''], Some Map.empty]\<rparr>)"
             and f = "\<lparr>Event = [],
                   Node = [Some [''name'' \<mapsto> ''edit''], Some [''value'' \<mapsto> ''running''], Some Map.empty]\<rparr>"
             and before = "[Some [''name'' \<mapsto> ''edit'']]" and m = "[''value'' \<mapsto> ''running'']"
             and after = "[Some Map.empty]"
             and re = regexp_presence and n = session_start and data = "''<edit>''"]
        nameless_entries_skipped
          [where hook = "hook_with (Some \<lparr>Event = ''netconf-session-start'',
                   Node = [Some [''value'' \<mapsto> ''running''], Some Map.empty]\<rparr>)"
             and f = "\<lparr>Event = ''netconf-session-start'',
                   Node = [Some [''value'' \<mapsto> ''running''], Some Map.empty]\<rparr>"
             and before = "[]" and m = "[''value'' \<mapsto> ''running'']" and after = "[Some Map.empty]"
             and re = regexp_presence and n = session_start and data = "''<a/>''"]
  by (simp add: hook_with_def session_start_def setEventType_def newNotification_def nameless_def
        filter_webhook_def regexp_presence_def backslash_def name_char_def open_tag_at_def
        isspace_def)

subsection \<open>Validation disables a webhook that cannot work\<close>

lemma validate_nodes_returns:
  "list_all (\<lambda>e. e \<noteq> None) ns \<Longrightarrow> \<exists>hook'. validate_nodes re ns hook = Inr hook'"
  by (induction ns arbitrary: hook) (auto split: option.splits)

lemma validate_nodes_keeps_disabled:
  "validate_nodes re ns hook = Inr hook' \<Longrightarrow> Disable hook \<Longrightarrow> Disable hook'"
proof (induction ns arbitrary: hook)
  case Nil
  then show ?case by simp
next
  case (Cons e ns)
  then show ?case
    by (cases e) (auto split: option.splits)
qed

lemma validate_nodes_bad_value:
  "validate_nodes re ns hook = Inr hook' \<Longrightarrow>
   list_ex (\<lambda>e. case e of None \<Rightarrow> False
                | Some m \<Rightarrow> (case m ''value'' of None \<Rightarrow> False | Some v \<Rightarrow> re v = None)) ns \<Longrightarrow>
   Disable hook'"
proof (induction ns arbitrary: hook)
  case Nil
  then show ?case by simp
next
  case (Cons e ns)
  show ?case
  proof (cases e)
    case None
    with Cons.prems show ?thesis by simp
  next
    case (Some m)
    show ?thesis
    proof (cases "m ''value''")
      case None
      with Some Cons show ?thesis by simp
    next
      case (Some v)
      show ?thesis
      proof (cases "re v")
        case None
        with \<open>e = Some m\<close> Some Cons.prems(1)
        have "validate_nodes re ns (hook\<lparr>StreamList := [], Disable := True\<rparr>) = Inr hook'"
          by simp
        then show ?thesis
          by (rule validate_nodes_keeps_disabled) simp
      next
        case (Some r)
        with \<open>e = Some m\<close> \<open>m ''value'' = Some v\<close> Cons show ?thesis by simp
      qed
    qed
  qed
qed

lemma validate_hook_returns:
  "no_nil_nodes hook \<Longrightarrow> \<exists>hook'. validate_hook url_Parse re hook = Inr hook'"
  by (auto simp: validate_hook_def no_nil_nodes_def Let_def validate_nodes_returns
           split: sum.splits option.splits)

lemma validate_hook_disables:
  assumes "validate_hook url_Parse re hook = Inr hook'"
      and "isl (url_Parse (Url hook)) \<or> bad_value re hook"
  shows "Disable hook'"
proof (cases "url_Parse (Url hook)")
  case (Inl err)
  with assms(1) show ?thesis
    by (auto simp: validate_hook_def Let_def split: option.splits
             dest: validate_nodes_keeps_disabled)
next
  case (Inr u)
  with assms(2) have bad: "bad_value re hook" by simp
  then obtain f where f: "wh_Filter hook = Some f"
    by (cases "wh_Filter hook") (simp_all add: bad_value_def)
  with bad have ex: "list_ex (\<lambda>e. case e of None \<Rightarrow> False
       | Some m \<Rightarrow> (case m ''value'' of None \<Rightarrow> False | Some v \<Rightarrow> re v = None)) (Node f)"
    by (simp add: bad_value_def)
  from assms(1) Inr f
  have "validate_nodes re (Node f) (hook\<lparr>targetURL := Some u\<rparr>) = Inr hook'"
    by (simp add: validate_hook_def)
  then show ?thesis
    using ex by (rule validate_nodes_bad_value)
qed

lemma validate_hooks_returns:
  "list_all no_nil_nodes hooks \<Longrightarrow> \<exists>hooks'. validate_hooks url_Parse re hooks = Inr hooks'"
proof (induction hooks)
  case Nil
  then show ?case by simp
next
  case (Cons hook hooks)
  then obtain hooks' where "validate_hooks url_Parse re hooks = Inr hooks'" by auto
  moreover from Cons.prems obtain hook' where "validate_hook url_Parse re hook = Inr hook'"
    using validate_hook_returns by fastforce
  ultimately show ?case by simp
qed

lemma validate_hooks_pointwise:
  "validate_hooks url_Parse re hooks = Inr hooks' \<Longrightarrow>
   length hooks' = length hooks \<and>
   (\<forall>i < length hooks. validate_hook url_Parse re (hooks ! i) = Inr (hooks' ! i))"
proof (induction hooks arbitrary: hooks')
  case Nil
  then show ?case by simp
next
  case (Cons hook hooks)
  then show ?case
    by (auto split: sum.splits simp: nth_Cons split: nat.splits)
qed

text \<open>
  C9. Validation of webhooks none of whose filters has a nil node entry returns, and
  in the webhooks it returns (the ones the streams point to and the subscribers ask),
  a webhook whose address does not parse, or whose filter has a value that does not
  compile, is disabled: its \<open>shouldFire\<close> is false on every notification and payload,
  whatever its filter would say, as is the \<open>shouldFire\<close> of any disabled webhook.
\<close>

theorem bad_webhook_disabled:
  assumes "list_all no_nil_nodes webhooks"
      and "i < length webhooks"
      and "isl (url_Parse (Url (webhooks ! i))) \<or> bad_value re (webhooks ! i)"
  shows "(\<exists>hooks' streams'.
            validate url_Parse re webhooks streamList = Inr (hooks', streams')
            \<and> length hooks' = length webhooks
            \<and> Disable (hooks' ! i)
            \<and> (\<forall>re' n data. shouldFire re' (hooks' ! i) n data = Inr False))
         \<and> (Disable hook \<longrightarrow> shouldFire re' hook n data = Inr False)"
proof
  from assms(1) obtain hooks1 where v: "validate_hooks url_Parse re webhooks = Inr hooks1"
    using validate_hooks_returns by blast
  then have len: "length hooks1 = length webhooks"
    and at: "validate_hook url_Parse re (webhooks ! i) = Inr (hooks1 ! i)"
    using validate_hooks_pointwise assms(2) by blast+
  from at assms(3) have "Disable (hooks1 ! i)"
    by (rule validate_hook_disables)
  then have dis: "Disable (link_streams streamList hooks1 ! i)"
    using assms(2) len by (simp add: link_streams_def)
  from assms(2) have "0 < length webhooks" by (cases webhooks) simp_all
  then have "validate url_Parse re webhooks streamList
          = Inr (link_streams streamList hooks1,
                 link_webhooks 0 (link_streams streamList hooks1) streamList)"
    using v by (simp add: validate_def Let_def)
  moreover have "length (link_streams streamList hooks1) = length webhooks"
    using len by (simp add: link_streams_def)
  ultimately show "\<exists>hooks' streams'.
           validate url_Parse re webhooks streamList = Inr (hooks', streams')
           \<and> length hooks' = length webhooks
           \<and> Disable (hooks' ! i)
           \<and> (\<forall>re' n data. shouldFire re' (hooks' ! i) n data = Inr False)"
    using dis by (simp add: shouldFire_def)
next
  show "Disable hook \<longrightarrow> shouldFire re' hook n data = Inr False"
    by (simp add: shouldFire_def)
qed

theorem bad_webhook_disabled_witness:
  "list_all no_nil_nodes [bad_url_hook, bad_value_hook]
   \<and> isl (url_Parse_example (Url ([bad_url_hook, bad_value_hook] ! 0)))
   \<and> bad_value regexp_presence ([bad_url_hook, bad_value_hook] ! 1)
   \<and> (\<exists>hooks' streams'.
         validate url_Parse_example regexp_presence [bad_url_hook, bad_value_hook] [netconf_stream]
           = Inr (hooks', streams')
         \<and> Disable (hooks' ! 0) \<and> Disable (hooks' ! 1)
         \<and> shouldFire regexp_presence (hooks' ! 0) session_start ''<target>R0</target>'' = Inr False
         \<and> shouldFire regexp_presence (hooks' ! 1) session_start ''<target>R0</target>'' = Inr False)"
proof -
  let ?hooks = "[bad_url_hook, bad_value_hook]"
  have nil: "list_all no_nil_nodes ?hooks"
    by (simp add: no_nil_nodes_def bad_url_hook_def bad_value_hook_def hook_with_def)
  have url: "isl (url_Parse_example (Url (?hooks ! 0)))"
    by (simp add: url_Parse_example_def bad_url_hook_def hook_with_def)
  have val: "bad_value regexp_presence (?hooks ! 1)"
    by (simp add: bad_value_def bad_value_hook_def hook_with_def regexp_presence_def)
  have i0: "0 < length ?hooks" and i1: "1 < length ?hooks"
    by simp_all
  from url have c0: "isl (url_Parse_example (Url (?hooks ! 0))) \<or> bad_value regexp_presence (?hooks ! 0)"
    by (rule disjI1)
  from val have c1: "isl (url_Parse_example (Url (?hooks ! 1))) \<or> bad_value regexp_presence (?hooks ! 1)"
    by (rule disjI2)
  from bad_webhook_disabled [where url_Parse = url_Parse_example and re = regexp_presence
         and streamList = "[netconf_stream]" and hook = bad_url_hook and re' = regexp_presence
         and n = session_start and data = "[]", OF nil i0 c0, THEN conjunct1]
  obtain hooks' streams' where
    v: "validate url_Parse_example regexp_presence ?hooks [netconf_stream] = Inr (hooks', streams')"
    and d0: "Disable (hooks' ! 0)"
    and f0: "\<forall>re' n data. shouldFire re' (hooks' ! 0) n data = Inr False"
    by blast
  from bad_webhook_disabled [where url_Parse = url_Parse_example and re = regexp_presence
         and streamList = "[netconf_stream]" and hook = bad_url_hook and re' = regexp_presence
         and n = session_start and data = "[]", OF nil i1 c1, THEN conjunct1] v
  have d1: "Disable (hooks' ! 1)"
    and f1: "\<forall>re' n data. shouldFire re' (hooks' ! 1) n data = Inr False"
    by auto
  from nil url val v d0 d1 f0 f1 show ?thesis by blast
qed

subsection \<open>What a subscriber returns\<close>

lemma subscriber_loop_received:
  "handler sub \<noteq> None \<Longrightarrow>
   subscriber_loop sub (map Received ns @ rounds)
     = subscriber_loop (sub\<lparr>eventCount := eventCount sub + of_nat (length ns)\<rparr>) rounds"
proof (induction ns arbitrary: sub)
  case Nil
  then show ?case by simp
next
  case (Cons n ns)
  from Cons.prems have "handler (sub\<lparr>eventCount := eventCount sub + 1\<rparr>) \<noteq> None" by simp
  from Cons.IH [OF this] Cons.prems show ?case
    by (simp add: add.assoc)
qed

lemma sint_count:
  assumes "n < 2 ^ 63"
  shows "sint (of_nat n :: go_int) = int n"
proof -
  from assms have "int n < 2 ^ 63"
    by (metis of_nat_less_iff of_nat_numeral of_nat_power)
  then show ?thesis
    by (simp add: signed_of_nat signed_take_bit_int_eq_self)
qed

text \<open>
  The count wraps around: a subscriber that has counted \<open>2\<^sup>6\<^sup>3 - 1\<close> events and receives
  one more returns the least machine integer.
\<close>

lemma count_wraps:
  "handler sub \<noteq> None \<Longrightarrow> eventCount sub = 9223372036854775807 \<Longrightarrow>
   \<exists>c. subscriber_loop sub [Received n, Done] = Some (c, None) \<and> sint c = - 9223372036854775808"
  by simp

lemma subscribe_access_fresh:
  "list_all fresh_sub (snd st) \<Longrightarrow> list_all fresh_sub (snd (subscribe_access r a as st))"
proof (induction as arbitrary: st)
  case Nil
  then show ?case by simp
next
  case (Cons x as)
  obtain found subs where st: "st = (found, subs)" by (cases st)
  show ?case
  proof (cases "EncodingType x = ENCODING_XML")
    case True
    let ?st' = "(found(r \<mapsto> True),
                 subs @ [\<lparr>stream = a, url = LocationURL x,
                          handler = Some HandlerDefault, eventCount = 0\<rparr>])"
    have "fresh_sub \<lparr>stream = a, url = LocationURL x,
                     handler = Some HandlerDefault, eventCount = 0\<rparr>"
      by (simp add: fresh_sub_def)
    with st Cons.prems have "list_all fresh_sub (snd ?st')"
      by simp
    then have "list_all fresh_sub (snd (subscribe_access r a as ?st'))"
      by (rule Cons.IH)
    with True st show ?thesis by simp
  next
    case False
    with st Cons.prems show ?thesis
      by (simp add: Cons.IH)
  qed
qed

lemma subscribe_streams_fresh:
  "list_all fresh_sub (snd st) \<Longrightarrow> list_all fresh_sub (snd (subscribe_streams r sts st))"
proof (induction sts arbitrary: st)
  case Nil
  then show ?case by simp
next
  case (Cons a sts)
  then show ?case
    by (simp add: subscribe_access_fresh)
qed

lemma subscribe_names_fresh:
  "list_all fresh_sub (snd st) \<Longrightarrow> list_all fresh_sub (snd (subscribe_names names sts st))"
proof (induction names arbitrary: st)
  case Nil
  then show ?case by simp
next
  case (Cons r names)
  obtain found subs where st: "st = (found, subs)" by (cases st)
  with Cons.prems have "list_all fresh_sub (snd (subscribe_streams r sts (found(r \<mapsto> False), subs)))"
    by (simp add: subscribe_streams_fresh)
  then show ?case
    using st by (simp add: Cons.IH)
qed

lemma registerHandler_fresh:
  "list_all fresh_sub sl \<Longrightarrow> list_all fresh_sub (registerHandler name h sl)"
  by (induction sl) (simp_all add: registerHandler_def fresh_sub_def)

lemma startSubscribers_fresh:
  assumes "startSubscribers streamNames streams [] = Inr subs"
  shows "list_all fresh_sub subs"
proof -
  let ?st = "subscribe_names (requested_names streamNames streams) streams (Map.empty, [])"
  have "list_all fresh_sub (snd ?st)"
    by (rule subscribe_names_fresh) simp
  moreover from assms have "subs = registerHandler ''NETCONF'' HandlerNetconf
                     (registerHandler ''ncs-events'' HandlerNcsEvents (snd ?st))"
    by (simp add: startSubscribers_def Let_def case_prod_beta split: if_splits)
  ultimately show ?thesis
    by (simp add: registerHandler_fresh)
qed

text \<open>
  C8. When the stream cannot be opened the subscriber returns at once, with no event
  and the error. Otherwise, after receiving the notifications \<open>ns\<close>, a subscriber that
  has a handler returns its count raised by their number (an addition of machine
  integers) and no error when it then sees the cancellation, and the same count with
  the error \<^verbatim>\<open>notification channel closed/unavailable\<close> when it then finds the channel
  closed. Every subscriber that \<^verbatim>\<open>startSubscribers\<close> builds has a handler and starts from
  the count zero, and for such a subscriber the count returned reads as the number of
  notifications it received, as long as that number is below \<open>2\<^sup>6\<^sup>3\<close>.
\<close>

theorem startSubscriber_returns:
  "(openStream (url sub) = Inl err \<longrightarrow> startSubscriber openStream sub rounds = Some (0, Some err))
   \<and> (openStream (url sub) = Inr reader \<and> handler sub \<noteq> None \<longrightarrow>
        startSubscriber openStream sub (map Received ns @ Done # rounds)
          = Some (eventCount sub + of_nat (length ns), None)
        \<and> startSubscriber openStream sub (map Received ns @ Closed # rounds)
          = Some (eventCount sub + of_nat (length ns),
                  Some (Error ''notification channel closed/unavailable'')))
   \<and> (fresh_sub sub \<and> length ns < 2 ^ 63 \<longrightarrow>
        sint (eventCount sub + of_nat (length ns)) = int (length ns))
   \<and> (startSubscribers streamNames streams [] = Inr subs \<longrightarrow> list_all fresh_sub subs)"
  using startSubscribers_fresh [of streamNames streams subs] sint_count [of "length ns"]
  by (simp add: startSubscriber_def subscriber_loop_received fresh_sub_def)

theorem startSubscriber_returns_witness:
  "startSubscriber openStream_example (netconf_subscriber\<lparr>url := \<lparr>Host = ''localhost:8080'', URL_String = []\<rparr>\<rparr>)
       [Received session_start, Done] = Some (0, Some (Error ''connection refused''))
   \<and> startSubscriber openStream_example netconf_subscriber
       [Received session_start, Received session_start, Done, Received session_start] = Some (2, None)
   \<and> startSubscriber openStream_example netconf_subscriber
       [Received session_start, Closed]
       = Some (1, Some (Error ''notification channel closed/unavailable''))
   \<and> fresh_sub netconf_subscriber
   \<and> sint (eventCount netconf_subscriber + of_nat (length [session_start, session_start])) = 2
   \<and> startSubscribers [''NETCONF''] [netconf_stream] [] = Inr [netconf_subscriber]
   \<and> list_all fresh_sub [netconf_subscriber]"
proof -
  have o: "openStream_example (url netconf_subscriber) = Inr ()"
    and h: "handler netconf_subscriber \<noteq> None"
    and e: "eventCount netconf_subscriber = 0"
    and f: "fresh_sub netconf_subscriber"
    by (simp_all add: openStream_example_def netconf_subscriber_def fresh_sub_def)
  have b: "startSubscribers [''NETCONF''] [netconf_stream] [] = Inr [netconf_subscriber]"
    by (simp add: netconf_subscriber_def netconf_stream_def startSubscribers_def
          requested_names_def fuzzyNameMatch_def registerHandler_def)
  from startSubscriber_returns
          [where openStream = openStream_example
             and sub = "netconf_subscriber\<lparr>url := \<lparr>Host = ''localhost:8080'', URL_String = []\<rparr>\<rparr>"
             and err = "Error ''connection refused''" and rounds = "[Received session_start, Done]"]
  have 1: "startSubscriber openStream_example
             (netconf_subscriber\<lparr>url := \<lparr>Host = ''localhost:8080'', URL_String = []\<rparr>\<rparr>)
             [Received session_start, Done] = Some (0, Some (Error ''connection refused''))"
    by (simp add: openStream_example_def)
  from startSubscriber_returns
          [where openStream = openStream_example and sub = netconf_subscriber and reader = "()"
             and ns = "[session_start, session_start]" and rounds = "[Received session_start]"
             and streamNames = "[''NETCONF'']" and streams = "[netconf_stream]"
             and subs = "[netconf_subscriber]"] o h e f b
  have 2: "startSubscriber openStream_example netconf_subscriber
             [Received session_start, Received session_start, Done, Received session_start]
             = Some (2, None)"
    and 4: "sint (eventCount netconf_subscriber + of_nat (length [session_start, session_start])) = 2"
    and 5: "list_all fresh_sub [netconf_subscriber]"
    by simp_all
  from startSubscriber_returns
          [where openStream = openStream_example and sub = netconf_subscriber and reader = "()"
             and ns = "[session_start]" and rounds = "[]"] o h e
  have 3: "startSubscriber openStream_example netconf_subscriber [Received session_start, Closed]
             = Some (1, Some (Error ''notification channel closed/unavailable''))"
    by simp
  from 1 2 3 f 4 b 5 show ?thesis by blast
qed

subsection \<open>The NETCONF handler: edits and devices\<close>

lemma edit_copy: "\<lparr>Target = Target e, Operation = Operation e\<rparr> = (e :: NetconfConfigChangeEdit)"
  by simp

lemma netconf_edit_Edits:
  "Edits (snd (netconf_edit noColor e (msg, n))) = Edits n @ [e]"
  by (simp add: netconf_edit_def Let_def split: option.splits)

lemma netconf_edit_DeviceEdits:
  "DeviceEdits (snd (netconf_edit noColor e (msg, n))) = append_edit (DeviceEdits n) (edit_key e) e"
  by (simp add: netconf_edit_def edit_key_def edit_copy Let_def split: option.splits)

lemma netconf_edit_EventType:
  "EventType (snd (netconf_edit noColor e (msg, n))) = EventType n"
  by (simp add: netconf_edit_def Let_def split: option.splits)

lemma netconf_edits_EventType:
  "EventType (snd (netconf_edits noColor es st)) = EventType (snd st)"
proof (induction es arbitrary: st)
  case Nil
  then show ?case by simp
next
  case (Cons e es)
  obtain msg n where "st = (msg, n)" by (cases st)
  then show ?case
    by (simp add: Cons.IH netconf_edit_EventType)
qed

lemma append_edit_grouped:
  "append_edit (grouped es) (edit_key e) e = grouped (es @ [e])"
  by (rule ext) (simp add: append_edit_def grouped_def Let_def)

lemma netconf_edits_groups:
  "DeviceEdits (snd st) = grouped (Edits (snd st)) \<Longrightarrow>
   Edits (snd (netconf_edits noColor es st)) = Edits (snd st) @ es
   \<and> DeviceEdits (snd (netconf_edits noColor es st)) = grouped (Edits (snd st) @ es)"
proof (induction es arbitrary: st)
  case Nil
  then show ?case by simp
next
  case (Cons e es)
  obtain msg n where st: "st = (msg, n)" by (cases st)
  let ?st' = "netconf_edit noColor e (msg, n)"
  have "DeviceEdits (snd ?st') = grouped (Edits (snd ?st'))"
    using Cons.prems st
    by (simp add: netconf_edit_Edits netconf_edit_DeviceEdits append_edit_grouped)
  from Cons.IH [OF this] st show ?case
    by (simp add: netconf_edit_Edits)
qed

lemma sum_groups:
  "finite S \<Longrightarrow> f ` set xs \<subseteq> S \<Longrightarrow> (\<Sum>k\<in>S. length (filter (\<lambda>x. f x = k) xs)) = length xs"
proof (induction xs)
  case Nil
  then show ?case by simp
next
  case (Cons x xs)
  then have "(\<Sum>k\<in>S. length (filter (\<lambda>x. f x = k) xs)) = length xs" by simp
  moreover have "(\<Sum>k\<in>S. length (filter (\<lambda>y. f y = k) (x # xs)))
        = (\<Sum>k\<in>S. (if k = f x then 1 else 0) + length (filter (\<lambda>y. f y = k) xs))"
    by (rule sum.cong) auto
  moreover have "(\<Sum>k\<in>S. (if k = f x then 1 else 0 :: nat)) = 1"
    using Cons.prems by (simp add: sum.delta)
  ultimately show ?case
    by (simp add: sum.distrib)
qed

lemma dom_grouped: "dom (grouped es) = edit_key ` set es"
  by (auto simp: grouped_def Let_def dom_def filter_empty_conv image_iff)

lemma sum_grouped:
  "(\<Sum>k\<in>dom (grouped es). length (the (grouped es k))) = length es"
proof -
  have "(\<Sum>k\<in>dom (grouped es). length (the (grouped es k)))
      = (\<Sum>k\<in>edit_key ` set es. length (filter (\<lambda>e. edit_key e = k) es))"
    unfolding dom_grouped
    by (rule sum.cong) (auto simp: grouped_def Let_def filter_empty_conv)
  also have "\<dots> = length es"
    by (rule sum_groups) auto
  finally show ?thesis .
qed


lemma handlerNetconf_config_change:
  assumes "unmarshal (''<root>'' @ Inner n @ ''</root>'') = Inr nInner"
      and "NetconfSessionStart nInner = None"
      and "NetconfConfigChange nInner = Some cc"
  shows "\<exists>msg0. handlerNetconf unmarshal noColor n
           = Inr (netconf_edits noColor (cc_Edits cc)
                    (msg0, (setEventType EVENT_NETCONF_CONFIG_CHANGE n)
                             \<lparr>User := cc_User cc, UserHost := cc_Host cc,
                              Datastore := cc_Datastore cc\<rparr>))"
  using assms by (simp add: handlerNetconf_def Let_def) blast

text \<open>
  C5. For a configuration change handled on a fresh notification, the handler returns,
  the flat list of edits is the list of the edits decoded, and the map from devices to
  edits holds, under each key, exactly the edits of the flat list that have this key
  (the device name found in the target, or \<open>none\<close>), in their order. So every edit of
  the flat list is in one group and only one, and the sizes of the groups add up to the
  length of the flat list.
\<close>

theorem edits_grouped:
  assumes "unmarshal (''<root>'' @ Inner n @ ''</root>'') = Inr nInner"
      and "NetconfSessionStart nInner = None"
      and "NetconfConfigChange nInner = Some cc"
      and "fresh_notification n"
  shows "\<exists>msg n'. handlerNetconf unmarshal noColor n = Inr (msg, n')
           \<and> EventType n' = EVENT_NETCONF_CONFIG_CHANGE
           \<and> Edits n' = cc_Edits cc
           \<and> DeviceEdits n' = grouped (Edits n')
           \<and> finite (dom (DeviceEdits n'))
           \<and> (\<Sum>k\<in>dom (DeviceEdits n'). length (the (DeviceEdits n' k))) = length (Edits n')"
proof -
  let ?n1 = "(setEventType EVENT_NETCONF_CONFIG_CHANGE n)
                \<lparr>User := cc_User cc, UserHost := cc_Host cc, Datastore := cc_Datastore cc\<rparr>"
  from handlerNetconf_config_change [where unmarshal = unmarshal and n = n, OF assms(1-3)]
  obtain msg0
    where h: "handlerNetconf unmarshal noColor n
                = Inr (netconf_edits noColor (cc_Edits cc) (msg0, ?n1))"
    by blast
  let ?st = "netconf_edits noColor (cc_Edits cc) (msg0, ?n1)"
  have start: "DeviceEdits (snd (msg0, ?n1)) = grouped (Edits (snd (msg0, ?n1)))"
    using assms(4) by (simp add: fresh_notification_def setEventType_def grouped_def fun_eq_iff)
  have e0: "Edits ?n1 = []"
    using assms(4) by (simp add: fresh_notification_def setEventType_def)
  from netconf_edits_groups [OF start, of noColor "cc_Edits cc"] e0
  have ed: "Edits (snd ?st) = cc_Edits cc" and de: "DeviceEdits (snd ?st) = grouped (cc_Edits cc)"
    by simp_all
  have ty: "EventType (snd ?st) = EVENT_NETCONF_CONFIG_CHANGE"
    by (simp add: netconf_edits_EventType setEventType_def)
  have fin: "finite (dom (grouped (cc_Edits cc)))"
    by (simp add: dom_grouped)
  show ?thesis
    using h ed de ty fin sum_grouped [of "cc_Edits cc"]
    by (cases ?st) simp
qed

lemma fresh_newNotification: "fresh_notification (newNotification\<lparr>Inner := i\<rparr>)"
  by (simp add: fresh_notification_def newNotification_def)

lemma reDevice_device_target_R0: "reDevice_FindStringSubmatch (device_target ''R0'') = Some ''R0''"
  by (simp add: device_target_def reDevice_at_def quote_def)

lemma reDevice_device_target_R1: "reDevice_FindStringSubmatch (device_target ''R1'') = Some ''R1''"
  by (simp add: device_target_def reDevice_at_def quote_def)

lemma edit_key_R0: "edit_key (device_edit ''R0'') = ''R0''"
  by (simp add: edit_key_def device_edit_def reDevice_device_target_R0)

lemma edit_key_R1: "edit_key (device_edit ''R1'') = ''R1''"
  by (simp add: edit_key_def device_edit_def reDevice_device_target_R1)

theorem edits_grouped_witness:
  "decodes_to (config_change [''R0'', ''R1'', ''R0''])
       (''<root>'' @ Inner (newNotification\<lparr>Inner := ''<netconf-config-change/>''\<rparr>) @ ''</root>'')
     = Inr (config_change [''R0'', ''R1'', ''R0''])
   \<and> NetconfSessionStart (config_change [''R0'', ''R1'', ''R0'']) = None
   \<and> fresh_notification (newNotification\<lparr>Inner := ''<netconf-config-change/>''\<rparr>)
   \<and> (\<exists>msg n'. handlerNetconf (decodes_to (config_change [''R0'', ''R1'', ''R0''])) True
                   (newNotification\<lparr>Inner := ''<netconf-config-change/>''\<rparr>) = Inr (msg, n')
          \<and> Edits n' = [device_edit ''R0'', device_edit ''R1'', device_edit ''R0'']
          \<and> DeviceEdits n' ''R0'' = Some [device_edit ''R0'', device_edit ''R0'']
          \<and> DeviceEdits n' ''R1'' = Some [device_edit ''R1'']
          \<and> DeviceEdits n' ''none'' = None
          \<and> (\<Sum>k\<in>dom (DeviceEdits n'). length (the (DeviceEdits n' k))) = 3)"
proof -
  let ?n = "newNotification\<lparr>Inner := ''<netconf-config-change/>''\<rparr>"
  let ?cc = "\<lparr>cc_User = ''admin'', cc_Host = ''127.0.0.1'', cc_Datastore = ''running'',
              cc_Edits = map device_edit [''R0'', ''R1'', ''R0'']\<rparr>"
  have h1: "decodes_to (config_change [''R0'', ''R1'', ''R0'']) (''<root>'' @ Inner ?n @ ''</root>'')
              = Inr (config_change [''R0'', ''R1'', ''R0''])"
    by (simp add: decodes_to_def)
  have h2: "NetconfSessionStart (config_change [''R0'', ''R1'', ''R0'']) = None"
    by (simp add: config_change_def)
  have h3: "NetconfConfigChange (config_change [''R0'', ''R1'', ''R0'']) = Some ?cc"
    by (simp add: config_change_def)
  have h4: "fresh_notification ?n"
    by (rule fresh_newNotification)
  from edits_grouped [where unmarshal = "decodes_to (config_change [''R0'', ''R1'', ''R0''])"
                         and n = ?n and noColor = True, OF h1 h2 h3 h4]
  obtain msg n' where
    r: "handlerNetconf (decodes_to (config_change [''R0'', ''R1'', ''R0''])) True ?n = Inr (msg, n')"
    and ed: "Edits n' = cc_Edits ?cc"
    and de: "DeviceEdits n' = grouped (Edits n')"
    and su: "(\<Sum>k\<in>dom (DeviceEdits n'). length (the (DeviceEdits n' k))) = length (Edits n')"
    by blast
  from ed have ed': "Edits n' = [device_edit ''R0'', device_edit ''R1'', device_edit ''R0'']"
    by simp
  have g0: "DeviceEdits n' ''R0'' = Some [device_edit ''R0'', device_edit ''R0'']"
    and g1: "DeviceEdits n' ''R1'' = Some [device_edit ''R1'']"
    and g2: "DeviceEdits n' ''none'' = None"
    unfolding de ed' by (simp_all add: grouped_def edit_key_R0 edit_key_R1)
  from su ed' have "(\<Sum>k\<in>dom (DeviceEdits n'). length (the (DeviceEdits n' k))) = 3"
    by simp
  with h1 h2 h4 r ed' g0 g1 g2 show ?thesis by blast
qed


lemma netconf_edit_Devices:
  "Devices (snd (netconf_edit noColor e st)) =
     (case reDevice_FindStringSubmatch (Target e) of
        None \<Rightarrow> Devices (snd st)
      | Some devName \<Rightarrow>
          if sort_SearchStrings (Devices (snd st)) devName = length (Devices (snd st))
          then sort_Strings (Devices (snd st) @ [devName]) else Devices (snd st))"
  by (cases st) (simp add: netconf_edit_def Let_def split: option.splits)

lemma handlerNetconf_fresh:
  assumes "NetconfSessionStart nInner = None" and "NetconfConfigChange nInner = Some cc"
  shows "\<exists>st0. Devices (snd st0) = []
           \<and> handlerNetconf (decodes_to nInner) noColor (newNotification\<lparr>Inner := i\<rparr>)
               = Inr (netconf_edits noColor (cc_Edits cc) st0)
           \<and> Edits (snd (netconf_edits noColor (cc_Edits cc) st0)) = cc_Edits cc
           \<and> DeviceEdits (snd (netconf_edits noColor (cc_Edits cc) st0)) = grouped (cc_Edits cc)"
proof -
  let ?n = "newNotification\<lparr>Inner := i\<rparr>"
  let ?n1 = "(setEventType EVENT_NETCONF_CONFIG_CHANGE ?n)
                \<lparr>User := cc_User cc, UserHost := cc_Host cc, Datastore := cc_Datastore cc\<rparr>"
  have "decodes_to nInner (''<root>'' @ Inner ?n @ ''</root>'') = Inr nInner"
    by (simp add: decodes_to_def)
  from handlerNetconf_config_change [where unmarshal = "decodes_to nInner" and n = ?n, OF this assms]
  obtain msg0
    where h: "handlerNetconf (decodes_to nInner) noColor ?n
                = Inr (netconf_edits noColor (cc_Edits cc) (msg0, ?n1))"
    by blast
  have start: "DeviceEdits (snd (msg0, ?n1)) = grouped (Edits (snd (msg0, ?n1)))"
    by (simp add: newNotification_def setEventType_def grouped_def fun_eq_iff)
  have e0: "Edits ?n1 = []" and d0: "Devices (snd (msg0, ?n1)) = []"
    by (simp_all add: newNotification_def setEventType_def)
  from netconf_edits_groups [OF start, of noColor "cc_Edits cc"] e0 d0 h
  show ?thesis
    by (intro exI [of _ "(msg0, ?n1)"]) simp
qed

text \<open>
  C1 (the code departs from it). With the edit of device R0 before the edit of device
  R1 the list of devices is R0, R1, as claimed. With the edit of R1 first the list is
  R1 alone: the binary search for R0 in the list R1 gives position 0, which is not the
  length of the list, so R0 is not added, although the map from devices to edits has
  both keys.
\<close>

theorem devices_depend_on_order:
  "(\<exists>msg n'. handlerNetconf (decodes_to (config_change [''R0'', ''R1''])) noColor
                 (newNotification\<lparr>Inner := i\<rparr>) = Inr (msg, n')
       \<and> Devices n' = [''R0'', ''R1''] \<and> dom (DeviceEdits n') = {''R0'', ''R1''})
   \<and> (\<exists>msg n'. handlerNetconf (decodes_to (config_change [''R1'', ''R0''])) noColor
                 (newNotification\<lparr>Inner := i\<rparr>) = Inr (msg, n')
       \<and> Devices n' = [''R1''] \<and> dom (DeviceEdits n') = {''R0'', ''R1''})"
proof
  let ?cc = "\<lparr>cc_User = ''admin'', cc_Host = ''127.0.0.1'', cc_Datastore = ''running'',
              cc_Edits = map device_edit [''R0'', ''R1'']\<rparr>"
  have "NetconfSessionStart (config_change [''R0'', ''R1'']) = None"
    and "NetconfConfigChange (config_change [''R0'', ''R1'']) = Some ?cc"
    by (simp_all add: config_change_def)
  from handlerNetconf_fresh [OF this, of noColor i] obtain st0 where
    d0: "Devices (snd st0) = []"
    and r: "handlerNetconf (decodes_to (config_change [''R0'', ''R1''])) noColor (newNotification\<lparr>Inner := i\<rparr>)
              = Inr (netconf_edits noColor (cc_Edits ?cc) st0)"
    and de: "DeviceEdits (snd (netconf_edits noColor (cc_Edits ?cc) st0)) = grouped (cc_Edits ?cc)"
    by blast
  have "Devices (snd (netconf_edits noColor (cc_Edits ?cc) st0)) = [''R0'', ''R1'']"
    using d0
    by (simp add: netconf_edit_Devices device_edit_def reDevice_device_target_R0
          reDevice_device_target_R1 sort_SearchStrings_def sort_Search.simps sort_Strings_def)
  moreover have "dom (DeviceEdits (snd (netconf_edits noColor (cc_Edits ?cc) st0))) = {''R0'', ''R1''}"
    unfolding de dom_grouped by (simp add: edit_key_R0 edit_key_R1)
  ultimately show "\<exists>msg n'. handlerNetconf (decodes_to (config_change [''R0'', ''R1''])) noColor
                 (newNotification\<lparr>Inner := i\<rparr>) = Inr (msg, n')
       \<and> Devices n' = [''R0'', ''R1''] \<and> dom (DeviceEdits n') = {''R0'', ''R1''}"
    using r by (cases "netconf_edits noColor (cc_Edits ?cc) st0") simp
next
  let ?cc = "\<lparr>cc_User = ''admin'', cc_Host = ''127.0.0.1'', cc_Datastore = ''running'',
              cc_Edits = map device_edit [''R1'', ''R0'']\<rparr>"
  have "NetconfSessionStart (config_change [''R1'', ''R0'']) = None"
    and "NetconfConfigChange (config_change [''R1'', ''R0'']) = Some ?cc"
    by (simp_all add: config_change_def)
  from handlerNetconf_fresh [OF this, of noColor i] obtain st0 where
    d0: "Devices (snd st0) = []"
    and r: "handlerNetconf (decodes_to (config_change [''R1'', ''R0''])) noColor (newNotification\<lparr>Inner := i\<rparr>)
              = Inr (netconf_edits noColor (cc_Edits ?cc) st0)"
    and de: "DeviceEdits (snd (netconf_edits noColor (cc_Edits ?cc) st0)) = grouped (cc_Edits ?cc)"
    by blast
  have "Devices (snd (netconf_edits noColor (cc_Edits ?cc) st0)) = [''R1'']"
    using d0
    by (simp add: netconf_edit_Devices device_edit_def reDevice_device_target_R0
          reDevice_device_target_R1 sort_SearchStrings_def sort_Search.simps sort_Strings_def)
  moreover have "dom (DeviceEdits (snd (netconf_edits noColor (cc_Edits ?cc) st0))) = {''R0'', ''R1''}"
    unfolding de dom_grouped by (auto simp add: edit_key_R0 edit_key_R1)
  ultimately show "\<exists>msg n'. handlerNetconf (decodes_to (config_change [''R1'', ''R0''])) noColor
                 (newNotification\<lparr>Inner := i\<rparr>) = Inr (msg, n')
       \<and> Devices n' = [''R1''] \<and> dom (DeviceEdits n') = {''R0'', ''R1''}"
    using r by (cases "netconf_edits noColor (cc_Edits ?cc) st0") simp
qed


subsection \<open>The default handler\<close>

text \<open>
  C3 (the code departs from it). On the inner payload
  \<^verbatim>\<open><eventTime>2021-01-01T00:00:00Z</eventTime><custom-event/>\<close> the default handler sets
  the event name to \<^verbatim>\<open>custom-event/\<close>: the pattern takes every character up to white
  space, \<^verbatim>\<open>^\<close> or \<^verbatim>\<open>>\<close>, so the slash of an empty-element tag is part of the name.
\<close>

theorem default_handler_keeps_slash:
  "handlerDefault (newNotification\<lparr>Inner := custom_event\<rparr>)
     = Inr (''inner structure:'' @ [newline] @ custom_event @ [newline],
            newNotification\<lparr>Inner := custom_event, EventName := ''custom-event/''\<rparr>)"
  by (simp add: handlerDefault_def custom_event_def newNotification_def xmlInnerCleanup_def
        bytes_ReplaceAll.simps reEventName_at_def isspace_def newline_def Let_def)

subsection \<open>The event field of the webhook payload\<close>

lemma strip_nsoevent_wrap: "strip_nsoevent (''<nsoevent>'' @ s @ ''</nsoevent>'') = Some s"
  by (simp add: strip_nsoevent_def suffix_def)

lemma netconf_edit_Inner: "Inner (snd (netconf_edit noColor e st)) = Inner (snd st)"
  by (cases st) (simp add: netconf_edit_def Let_def split: option.splits)

lemma netconf_edits_Inner: "Inner (snd (netconf_edits noColor es st)) = Inner (snd st)"
  by (induction es arbitrary: st) (simp_all add: netconf_edit_Inner)

lemma run_handler_Inner:
  assumes "run_handler unmarshal noColor h n = Inr (msg, n')"
  shows "Inner n' = Inner n"
proof (cases h)
  case HandlerDefault
  with assms show ?thesis
    by (auto simp: run_handler_def handlerDefault_def Let_def split: option.splits)
next
  case HandlerNcsEvents
  with assms show ?thesis
    by (auto simp: run_handler_def handlerNcsEvents_def setEventType_def Let_def
             split: sum.splits option.splits)
next
  case HandlerNetconf
  show ?thesis
  proof (cases "unmarshal (''<root>'' @ Inner n @ ''</root>'')")
    case (Inl err)
    with assms HandlerNetconf show ?thesis
      by (simp add: run_handler_def handlerNetconf_def)
  next
    case (Inr nInner)
    show ?thesis
    proof (cases "NetconfSessionStart nInner")
      case (Some ss)
      with assms HandlerNetconf Inr show ?thesis
        by (auto simp: run_handler_def handlerNetconf_def setEventType_def Let_def)
    next
      case None
      show ?thesis
      proof (cases "NetconfConfigChange nInner")
        case None
        with assms HandlerNetconf Inr \<open>NetconfSessionStart nInner = None\<close> show ?thesis
          by (simp add: run_handler_def handlerNetconf_def)
      next
        case (Some cc)
        with assms HandlerNetconf Inr \<open>NetconfSessionStart nInner = None\<close>
        obtain st0 where "netconf_edits noColor (cc_Edits cc) st0 = (msg, n')"
          and "Inner (snd st0) = Inner n"
          by (auto simp: run_handler_def handlerNetconf_def setEventType_def Let_def)
        then show ?thesis
          using netconf_edits_Inner [of noColor "cc_Edits cc" st0] by simp
      qed
    qed
  qed
qed

lemma bytes_ReplaceAll_absent:
  "\<not> strings_Contains s old \<Longrightarrow> bytes_ReplaceAll s old new = s"
proof (induction s)
  case Nil
  then show ?case by (simp add: bytes_ReplaceAll.simps [of "[]"])
next
  case (Cons c s)
  then show ?case by (simp add: bytes_ReplaceAll.simps [of "c # s"])
qed

lemma strings_Contains_prefix:
  "strings_Contains s q \<Longrightarrow> prefix p q \<Longrightarrow> strings_Contains s p"
proof (induction s)
  case Nil
  then show ?case by simp
next
  case (Cons c s)
  then show ?case by (auto intro: prefix_order.trans)
qed

lemma xmlInnerCleanup_no_marker:
  assumes "\<not> strings_Contains s (newline # ''data: '')"
  shows "xmlInnerCleanup s = s"
proof -
  have "prefix (newline # ''data: '') (newline # ''data:     '')" by simp
  with assms have "\<not> strings_Contains s (newline # ''data:     '')"
    using strings_Contains_prefix by blast
  with assms show ?thesis
    by (simp add: xmlInnerCleanup_def bytes_ReplaceAll_absent)
qed

text \<open>
  C7, as amended. The field \<^verbatim>\<open>event\<close> of the body built for a notification that its
  handler accepted, without its outer tags, is the cleaned inner payload: the raw inner
  payload with the markers of the event stream removed. It is the raw inner payload
  itself when that contains no marker \<^verbatim>\<open>data: \<close> at the start of a line.
\<close>

theorem event_field_is_cleaned_payload:
  "(run_handler unmarshal noColor h n = Inr (msg, n') \<longrightarrow>
      strip_nsoevent (ed_Event (enrichData_body sub n' (xmlInnerCleanup (Inner n'))))
        = Some (xmlInnerCleanup (Inner n)))
   \<and> (\<not> strings_Contains (Inner n) (newline # ''data: '') \<longrightarrow> xmlInnerCleanup (Inner n) = Inner n)"
proof -
  have "strip_nsoevent (ed_Event (enrichData_body sub n' (xmlInnerCleanup (Inner n'))))
          = Some (xmlInnerCleanup (Inner n'))"
    unfolding enrichData_body_def by (simp only: enrichData.simps strip_nsoevent_wrap)
  then show ?thesis
    using run_handler_Inner [of unmarshal noColor h n msg n'] xmlInnerCleanup_no_marker [of "Inner n"]
    by auto
qed

lemma cleanup_sse_event: "xmlInnerCleanup sse_event = custom_event"
  by (simp add: xmlInnerCleanup_def sse_event_def custom_event_def bytes_ReplaceAll.simps newline_def)

lemma cleanup_custom_event: "\<not> strings_Contains custom_event (newline # ''data: '')"
  by (simp add: custom_event_def newline_def)

text \<open>
  C7, as stated, fails on an inner payload that holds a marker: the field without its
  tags is the payload without the marker, not the raw payload.
\<close>

theorem event_field_differs_from_raw_payload:
  "strip_nsoevent (ed_Event (enrichData_body netconf_subscriber (newNotification\<lparr>Inner := sse_event\<rparr>)
       (xmlInnerCleanup (Inner (newNotification\<lparr>Inner := sse_event\<rparr>)))))
     = Some custom_event
   \<and> custom_event \<noteq> Inner (newNotification\<lparr>Inner := sse_event\<rparr>)"
proof -
  have i: "Inner (newNotification\<lparr>Inner := sse_event\<rparr>) = sse_event"
    by simp
  have "strip_nsoevent (ed_Event (enrichData_body netconf_subscriber (newNotification\<lparr>Inner := sse_event\<rparr>)
       (xmlInnerCleanup (Inner (newNotification\<lparr>Inner := sse_event\<rparr>))))) = Some custom_event"
    unfolding i cleanup_sse_event enrichData_body_def
    by (simp only: enrichData.simps strip_nsoevent_wrap)
  moreover have "custom_event \<noteq> sse_event"
    by (simp add: custom_event_def sse_event_def)
  ultimately show ?thesis
    using i by simp
qed

theorem event_field_is_cleaned_payload_witness:
  "run_handler (decodes_to (config_change [])) True HandlerDefault (newNotification\<lparr>Inner := sse_event\<rparr>)
     = Inr (''inner structure:'' @ [newline] @ custom_event @ [newline],
            newNotification\<lparr>Inner := sse_event, EventName := ''custom-event/''\<rparr>)
   \<and> strip_nsoevent (ed_Event (enrichData_body netconf_subscriber
          (newNotification\<lparr>Inner := sse_event, EventName := ''custom-event/''\<rparr>)
          (xmlInnerCleanup (Inner (newNotification\<lparr>Inner := sse_event, EventName := ''custom-event/''\<rparr>)))))
       = Some custom_event
   \<and> \<not> strings_Contains (Inner (newNotification\<lparr>Inner := custom_event\<rparr>)) (newline # ''data: '')
   \<and> xmlInnerCleanup (Inner (newNotification\<lparr>Inner := custom_event\<rparr>)) = custom_event"
proof -
  have r: "run_handler (decodes_to (config_change [])) True HandlerDefault (newNotification\<lparr>Inner := sse_event\<rparr>)
     = Inr (''inner structure:'' @ [newline] @ custom_event @ [newline],
            newNotification\<lparr>Inner := sse_event, EventName := ''custom-event/''\<rparr>)"
    by (simp add: run_handler_def handlerDefault_def newNotification_def cleanup_sse_event Let_def)
       (simp add: custom_event_def reEventName_at_def isspace_def)
  have c: "\<not> strings_Contains (Inner (newNotification\<lparr>Inner := custom_event\<rparr>)) (newline # ''data: '')"
    using cleanup_custom_event by simp
  from event_field_is_cleaned_payload
         [where unmarshal = "decodes_to (config_change [])" and noColor = True and h = HandlerDefault
            and n = "newNotification\<lparr>Inner := sse_event\<rparr>" and sub = netconf_subscriber
            and msg = "''inner structure:'' @ [newline] @ custom_event @ [newline]"
            and n' = "newNotification\<lparr>Inner := sse_event, EventName := ''custom-event/''\<rparr>"] r
  have 1: "strip_nsoevent (ed_Event (enrichData_body netconf_subscriber
          (newNotification\<lparr>Inner := sse_event, EventName := ''custom-event/''\<rparr>)
          (xmlInnerCleanup (Inner (newNotification\<lparr>Inner := sse_event, EventName := ''custom-event/''\<rparr>)))))
       = Some custom_event"
    by (simp add: cleanup_sse_event)
  from event_field_is_cleaned_payload [where n = "newNotification\<lparr>Inner := custom_event\<rparr>"] c
  have 2: "xmlInnerCleanup (Inner (newNotification\<lparr>Inner := custom_event\<rparr>)) = custom_event"
    by simp
  from r 1 c 2 show ?thesis by blast
qed

subsection \<open>Building the subscribers: streams not found\<close>

lemma subscribe_access_length:
  "length (snd (subscribe_access r st as s))
     = length (snd s) + length (filter (\<lambda>a. EncodingType a = ENCODING_XML) as)"
proof (induction as arbitrary: s)
  case Nil
  then show ?case by simp
next
  case (Cons a as)
  obtain found subs where "s = (found, subs)" by (cases s)
  then show ?case
    by (simp add: Cons.IH)
qed

lemma subscribe_streams_mono:
  "length (snd s) \<le> length (snd (subscribe_streams r sts s))"
proof (induction sts arbitrary: s)
  case Nil
  then show ?case by simp
next
  case (Cons st sts)
  let ?s' = "if fuzzyNameMatch r (Name st) then subscribe_access r st (Access st) s else s"
  have "length (snd s) \<le> length (snd ?s')"
    by (simp add: subscribe_access_length)
  also have "\<dots> \<le> length (snd (subscribe_streams r sts ?s'))"
    by (rule Cons.IH)
  finally show ?case by simp
qed

lemma subscribe_streams_grows:
  "matches_xml_stream r sts \<Longrightarrow> length (snd s) < length (snd (subscribe_streams r sts s))"
proof (induction sts arbitrary: s)
  case Nil
  then show ?case by (simp add: matches_xml_stream_def)
next
  case (Cons st sts)
  let ?s' = "if fuzzyNameMatch r (Name st) then subscribe_access r st (Access st) s else s"
  show ?case
  proof (cases "fuzzyNameMatch r (Name st) \<and> list_ex (\<lambda>a. EncodingType a = ENCODING_XML) (Access st)")
    case True
    then have "filter (\<lambda>a. EncodingType a = ENCODING_XML) (Access st) \<noteq> []"
      by (simp add: filter_empty_conv list_ex_iff)
    then have "length (snd s) < length (snd ?s')"
      using True by (simp add: subscribe_access_length)
    also have "\<dots> \<le> length (snd (subscribe_streams r sts ?s'))"
      by (rule subscribe_streams_mono)
    finally show ?thesis by simp
  next
    case False
    with Cons.prems have "matches_xml_stream r sts"
      by (auto simp: matches_xml_stream_def)
    then have "length (snd ?s') < length (snd (subscribe_streams r sts ?s'))"
      by (rule Cons.IH)
    moreover have "length (snd s) \<le> length (snd ?s')"
      by (simp add: subscribe_access_length)
    ultimately show ?thesis by simp
  qed
qed

lemma subscribe_names_grows:
  "list_all (\<lambda>r. matches_xml_stream r sts) names \<Longrightarrow>
   length (snd s) + length names \<le> length (snd (subscribe_names names sts s))"
proof (induction names arbitrary: s)
  case Nil
  then show ?case by simp
next
  case (Cons r names)
  obtain found subs where s: "s = (found, subs)" by (cases s)
  let ?s' = "subscribe_streams r sts (found(r \<mapsto> False), subs)"
  from Cons.prems have "matches_xml_stream r sts" by simp
  then have "length (snd (found(r \<mapsto> False), subs)) < length (snd ?s')"
    by (rule subscribe_streams_grows)
  moreover from Cons.prems have "length (snd ?s') + length names \<le> length (snd (subscribe_names names sts ?s'))"
    by (simp add: Cons.IH)
  ultimately show ?case
    using s by simp
qed

text \<open>
  C2, as amended. When every name asked for matches a stream of the server that has an
  access with the XML encoding, the subscribers are built and no error is returned. So
  an error, which is then \<^verbatim>\<open>stream(s) not found\<close>, is only returned when some name asked
  for matches no such stream.
\<close>

theorem streams_not_found_only_if_unmatched:
  "(list_all (\<lambda>r. matches_xml_stream r streams) (requested_names streamNames streams)
      \<longrightarrow> (\<exists>subs. startSubscribers streamNames streams subs0 = Inr subs))
   \<and> (startSubscribers streamNames streams subs0 = Inl err
      \<longrightarrow> err = Error ''stream(s) not found''
          \<and> list_ex (\<lambda>r. \<not> matches_xml_stream r streams) (requested_names streamNames streams))"
proof -
  let ?names = "requested_names streamNames streams"
  let ?s = "subscribe_names ?names streams (Map.empty, subs0)"
  have ok: "list_all (\<lambda>r. matches_xml_stream r streams) ?names \<Longrightarrow> length ?names \<le> length (snd ?s)"
    using subscribe_names_grows [of streams ?names "(Map.empty, subs0)"] by simp
  have res: "startSubscribers streamNames streams subs0
        = (if length ?names > length (snd ?s) then Inl (Error ''stream(s) not found'')
           else Inr (registerHandler ''NETCONF'' HandlerNetconf
                     (registerHandler ''ncs-events'' HandlerNcsEvents (snd ?s))))"
    by (simp add: startSubscribers_def Let_def case_prod_beta)
  have neg: "\<not> list_all (\<lambda>r. matches_xml_stream r streams) ?names
        \<Longrightarrow> list_ex (\<lambda>r. \<not> matches_xml_stream r streams) ?names"
    by (simp add: list_all_iff list_ex_iff)
  show ?thesis
    using ok res neg by (auto split: if_splits)
qed

text \<open>
  C2, as stated, fails: a name that matches a stream of the server is still reported as
  not found when that stream has no access with the XML encoding.
\<close>

theorem json_only_stream_not_found:
  "startSubscribers [''NETCONF''] [json_only_stream] [] = Inl (Error ''stream(s) not found'')
   \<and> matches_stream ''NETCONF'' [json_only_stream]"
  by (simp add: startSubscribers_def requested_names_def json_only_stream_def netconf_stream_def
        fuzzyNameMatch_def matches_stream_def)

text \<open>
  The test that decides the error compares the number of names with the number of
  subscribers. A name that matches nothing goes unreported when another name makes up
  for it with two subscribers, although the map \<open>found\<close> has it as not found.
\<close>

lemma unmatched_name_not_reported:
  "\<not> matches_stream ''bogus'' [ncs_stream ''ncs-events'', ncs_stream ''ncs-alarms'']
   \<and> fst (subscribe_names [''ncs'', ''bogus''] [ncs_stream ''ncs-events'', ncs_stream ''ncs-alarms'']
             (Map.empty, [])) ''bogus'' = Some False
   \<and> \<not> isl (startSubscribers [''ncs'', ''bogus''] [ncs_stream ''ncs-events'', ncs_stream ''ncs-alarms''] [])"
  by (simp add: startSubscribers_def requested_names_def ncs_stream_def
        fuzzyNameMatch_def matches_stream_def registerHandler_def)

theorem streams_not_found_only_if_unmatched_witness:
  "list_all (\<lambda>r. matches_xml_stream r [netconf_stream]) (requested_names [''NETCONF''] [netconf_stream])
   \<and> startSubscribers [''NETCONF''] [netconf_stream] [] = Inr [netconf_subscriber]
   \<and> startSubscribers [''bogus''] [netconf_stream] [] = Inl (Error ''stream(s) not found'')
   \<and> list_ex (\<lambda>r. \<not> matches_xml_stream r [netconf_stream]) (requested_names [''bogus''] [netconf_stream])"
  using streams_not_found_only_if_unmatched [of "[netconf_stream]" "[''NETCONF'']" "[]"]
        streams_not_found_only_if_unmatched [of "[netconf_stream]" "[''bogus'']" "[]" "Error ''stream(s) not found''"]
  by (simp add: startSubscribers_def requested_names_def netconf_stream_def netconf_subscriber_def
        fuzzyNameMatch_def matches_xml_stream_def registerHandler_def)

subsection \<open>The filter: a tag that must be present\<close>

lemma open_tag_at_iff:
  "open_tag_at T s \<longleftrightarrow> (\<exists>c after. s = ''<'' @ T @ [c] @ after \<and> (isspace c \<or> c = CHR ''>''))"
proof
  assume a: "open_tag_at T s"
  then obtain rest where s: "s = (''<'' @ T) @ rest"
    by (auto simp: open_tag_at_def prefix_def)
  with a obtain c after where "rest = c # after" and "isspace c \<or> c = CHR ''>''"
    by (cases rest) (auto simp: open_tag_at_def)
  with s show "\<exists>c after. s = ''<'' @ T @ [c] @ after \<and> (isspace c \<or> c = CHR ''>'')"
    by auto
next
  assume "\<exists>c after. s = ''<'' @ T @ [c] @ after \<and> (isspace c \<or> c = CHR ''>'')"
  then show "open_tag_at T s"
    by (auto simp: open_tag_at_def)
qed

lemma has_open_tag_iff: "has_open_tag T data \<longleftrightarrow> contains_open_tag T data"
proof
  show "has_open_tag T data \<Longrightarrow> contains_open_tag T data"
  proof (induction data)
    case Nil
    then show ?case by simp
  next
    case (Cons x xs)
    show ?case
    proof (cases "open_tag_at T (x # xs)")
      case True
      then obtain c after where "x # xs = ''<'' @ T @ [c] @ after" and "isspace c \<or> c = CHR ''>''"
        using open_tag_at_iff by blast
      then have "x # xs = [] @ ''<'' @ T @ [c] @ after \<and> (isspace c \<or> c = CHR ''>'')"
        by simp
      then show ?thesis
        unfolding contains_open_tag_def by blast
    next
      case False
      with Cons obtain before c after
        where "xs = before @ ''<'' @ T @ [c] @ after" and "isspace c \<or> c = CHR ''>''"
        by (auto simp: contains_open_tag_def)
      then have "x # xs = (x # before) @ ''<'' @ T @ [c] @ after \<and> (isspace c \<or> c = CHR ''>'')"
        by simp
      then show ?thesis
        unfolding contains_open_tag_def by blast
    qed
  qed
next
  assume "contains_open_tag T data"
  then obtain before c after
    where d: "data = before @ ''<'' @ T @ [c] @ after" and c: "isspace c \<or> c = CHR ''>''"
    by (auto simp: contains_open_tag_def)
  have "has_open_tag T (before @ ''<'' @ T @ [c] @ after)"
  proof (induction before)
    case Nil
    have "open_tag_at T (''<'' @ T @ [c] @ after)"
      using c open_tag_at_iff by blast
    then show ?case by simp
  next
    case (Cons x before)
    then show ?case by simp
  qed
  with d show "has_open_tag T data" by simp
qed


lemma fire_hooks_fired:
  "fire_hooks re hooks is n data = Inr fired \<Longrightarrow>
   fired = filter (\<lambda>i. shouldFire re (hooks ! i) n data = Inr True) is"
proof (induction "is" arbitrary: fired)
  case Nil
  then show ?case by simp
next
  case (Cons i "is")
  then show ?case
    by (auto split: sum.splits if_splits)
qed

lemma handle_notification_fired:
  assumes "handle_notification re unmarshal jsonMarshal noColor hooks sub h n = Inr (Fired msg fired)"
  shows "\<exists>n' payload.
           run_handler unmarshal noColor h n = Inr (msg, n')
           \<and> jsonMarshal (enrichData_body sub n' (xmlInnerCleanup (Inner n'))) = Inr payload
           \<and> fired = filter (\<lambda>i. shouldFire re (hooks ! i) n' payload = Inr True) (Webhooks (stream sub))"
  using assms
  by (auto simp: handle_notification_def enrichData_def split: sum.splits prod.splits
           dest: fire_hooks_fired)

lemma filter_nodes_presence_only:
  assumes "re (''<'' @ T @ ''['' @ [backslash] @ ''s>]+'') = Some m"
      and "nd ''name'' = Some T" and "nd ''value'' = None"
  shows "filter_nodes re [Some nd] data = Inr (m data)"
  using assms by simp

lemma filter_nodes_true_presence:
  assumes "re (''<'' @ T @ ''['' @ [backslash] @ ''s>]+'') = Some m"
      and "nd ''name'' = Some T" and "nd ''value'' = None"
  shows "Some nd \<in> set ns \<Longrightarrow> filter_nodes re ns data = Inr True \<Longrightarrow> m data"
proof (induction ns)
  case Nil
  then show ?case by simp
next
  case (Cons e ns)
  show ?case
  proof (cases "e = Some nd")
    case True
    with Cons.prems(2) assms show ?thesis
      by (simp split: if_splits)
  next
    case False
    with Cons.prems(1) have "Some nd \<in> set ns" by simp
    moreover from Cons.prems(2) have "filter_nodes re ns data = Inr True"
      by (cases e) (auto split: option.splits if_splits)
    ultimately show ?thesis by (rule Cons.IH)
  qed
qed

text \<open>
  C4, as amended. Take a tag name \<open>T\<close> for which the regular expression library does
  what the pattern \<^verbatim>\<open><T[\s>]+\<close> says: it compiles, and it matches the texts that contain
  \<^verbatim>\<open><T\<close> followed by white space or \<^verbatim>\<open>>\<close> (as Go's library does when \<open>T\<close> has no character
  that is special in a pattern). A filter whose event name passes and whose only node
  condition asks for \<open>T\<close> to be present gives false exactly when the text it is given
  does not contain such a tag; and any filter with this condition gives true only on a
  text that contains one. The text the filters of a notification are given is the
  encoded payload of the webhook, built from the cleaned inner payload, and a hook
  fires exactly when its \<open>shouldFire\<close> is true on that text.
\<close>

theorem presence_only_condition:
  assumes "re (''<'' @ T @ ''['' @ [backslash] @ ''s>]+'') = Some m"
      and "\<forall>d. m d = contains_open_tag T d"
      and "wh_Filter hook = Some f"
      and "nd ''name'' = Some T" and "nd ''value'' = None"
  shows "(Node f = [Some nd] \<and> (Event f = [] \<or> Event f = EventName n)
            \<longrightarrow> filter_webhook re hook n data = Inr (contains_open_tag T data))
         \<and> (Some nd \<in> set (Node f) \<and> filter_webhook re hook n data = Inr True
            \<longrightarrow> contains_open_tag T data)
         \<and> (handle_notification re unmarshal jsonMarshal noColor hooks sub h n0 = Inr (Fired msg fired)
            \<longrightarrow> (\<exists>n' payload.
                   run_handler unmarshal noColor h n0 = Inr (msg, n')
                   \<and> jsonMarshal (enrichData_body sub n' (xmlInnerCleanup (Inner n'))) = Inr payload
                   \<and> fired = filter (\<lambda>i. shouldFire re (hooks ! i) n' payload = Inr True)
                                    (Webhooks (stream sub))))"
proof (intro conjI impI)
  assume "Node f = [Some nd] \<and> (Event f = [] \<or> Event f = EventName n)"
  with assms(3) have "filter_webhook re hook n data = filter_nodes re [Some nd] data"
    by (auto simp: filter_webhook_def)
  also have "\<dots> = Inr (m data)"
    using assms(1,4,5) by (rule filter_nodes_presence_only)
  finally show "filter_webhook re hook n data = Inr (contains_open_tag T data)"
    using assms(2) by simp
next
  assume a: "Some nd \<in> set (Node f) \<and> filter_webhook re hook n data = Inr True"
  with assms(3) have "filter_nodes re (Node f) data = Inr True"
    by (auto simp: filter_webhook_def split: if_splits)
  with a have "m data"
    using filter_nodes_true_presence [where re = re and nd = nd and m = m, OF assms(1,4,5)] by blast
  with assms(2) show "contains_open_tag T data" by simp
next
  assume "handle_notification re unmarshal jsonMarshal noColor hooks sub h n0 = Inr (Fired msg fired)"
  then show "\<exists>n' payload.
                   run_handler unmarshal noColor h n0 = Inr (msg, n')
                   \<and> jsonMarshal (enrichData_body sub n' (xmlInnerCleanup (Inner n'))) = Inr payload
                   \<and> fired = filter (\<lambda>i. shouldFire re (hooks ! i) n' payload = Inr True)
                                    (Webhooks (stream sub))"
    by (rule handle_notification_fired)
qed


lemma nsoevent_hook_filter:
  "shouldFire regexp_presence nsoevent_hook n data = Inr (has_open_tag ''nsoevent'' data)"
  by (simp add: shouldFire_def filter_webhook_def nsoevent_hook_def hook_with_def
        regexp_presence_def backslash_def name_char_def)

lemma alarms_payload_encoded:
  "jsonMarshal_ascii (enrichData_body alarms_subscriber
       (newNotification\<lparr>Inner := custom_event, EventName := ''custom-event/''\<rparr>) custom_event)
     = Inr alarms_payload"
  by (simp add: jsonMarshal_ascii_def json_plain_def json_char_def enrichData_body_def
        alarms_subscriber_def ncs_stream_def newNotification_def custom_event_def alarms_payload_def
        json_field_def json_string_def json_escape_def dquote_def backslash_def newline_def)

lemma alarms_payload_has_nsoevent: "has_open_tag ''nsoevent'' alarms_payload"
  by (simp add: alarms_payload_def custom_event_def open_tag_at_def dquote_def)

text \<open>
  C4, as stated, fails: the raw payload of the event \<open>custom_event\<close> has no tag
  \<^verbatim>\<open>nsoevent\<close>, yet the hook that asks for this tag fires, because its filter is run on
  the payload of the webhook, which wraps the event in that tag.
\<close>

theorem filter_sees_enriched_payload:
  "handle_notification regexp_presence (decodes_to (config_change [])) jsonMarshal_ascii True
      [nsoevent_hook] alarms_subscriber HandlerDefault (newNotification\<lparr>Inner := custom_event\<rparr>)
     = Inr (Fired (''inner structure:'' @ [newline] @ custom_event @ [newline]) [0])
   \<and> \<not> contains_open_tag ''nsoevent'' (Inner (newNotification\<lparr>Inner := custom_event\<rparr>))"
proof -
  let ?n' = "newNotification\<lparr>Inner := custom_event, EventName := ''custom-event/''\<rparr>"
  have h: "run_handler (decodes_to (config_change [])) True HandlerDefault (newNotification\<lparr>Inner := custom_event\<rparr>)
     = Inr (''inner structure:'' @ [newline] @ custom_event @ [newline], ?n')"
    by (simp add: run_handler_def handlerDefault_def custom_event_def newNotification_def
          xmlInnerCleanup_def bytes_ReplaceAll.simps reEventName_at_def isspace_def newline_def Let_def)
  have c: "xmlInnerCleanup (Inner ?n') = custom_event"
    by (simp add: xmlInnerCleanup_def custom_event_def bytes_ReplaceAll.simps newline_def)
  have e: "enrichData jsonMarshal_ascii alarms_subscriber ?n' custom_event = Inr alarms_payload"
    by (simp only: enrichData_def alarms_payload_encoded sum.case)
  have w: "Webhooks (stream alarms_subscriber) = [0]"
    by (simp add: alarms_subscriber_def)
  have fh: "fire_hooks regexp_presence [nsoevent_hook] [0] ?n' alarms_payload = Inr [0]"
    by (simp add: nsoevent_hook_filter alarms_payload_has_nsoevent)
  have f: "handle_notification regexp_presence (decodes_to (config_change [])) jsonMarshal_ascii True
      [nsoevent_hook] alarms_subscriber HandlerDefault (newNotification\<lparr>Inner := custom_event\<rparr>)
     = Inr (Fired (''inner structure:'' @ [newline] @ custom_event @ [newline]) [0])"
    unfolding handle_notification_def h
    by (simp only: sum.case prod.case c e w fh)
  have "\<not> has_open_tag ''nsoevent'' custom_event"
    by (simp add: custom_event_def open_tag_at_def)
  then have "\<not> contains_open_tag ''nsoevent'' (Inner (newNotification\<lparr>Inner := custom_event\<rparr>))"
    by (simp add: has_open_tag_iff)
  with f show ?thesis by simp
qed


theorem presence_only_condition_witness:
  "regexp_presence (''<'' @ ''nsoevent'' @ ''['' @ [backslash] @ ''s>]+'') = Some (has_open_tag ''nsoevent'')
   \<and> (\<forall>d. has_open_tag ''nsoevent'' d = contains_open_tag ''nsoevent'' d)
   \<and> wh_Filter nsoevent_hook = Some \<lparr>Event = [], Node = [Some [''name'' \<mapsto> ''nsoevent'']]\<rparr>
   \<and> filter_webhook regexp_presence nsoevent_hook session_start alarms_payload = Inr True
   \<and> contains_open_tag ''nsoevent'' alarms_payload
   \<and> filter_webhook regexp_presence nsoevent_hook session_start custom_event = Inr False"
proof -
  let ?f = "\<lparr>Event = [], Node = [Some [''name'' \<mapsto> ''nsoevent'']]\<rparr>"
  let ?nd = "[''name'' \<mapsto> ''nsoevent'']"
  have h1: "regexp_presence (''<'' @ ''nsoevent'' @ ''['' @ [backslash] @ ''s>]+'')
              = Some (has_open_tag ''nsoevent'')"
    by (simp add: regexp_presence_def backslash_def name_char_def)
  have h2: "\<forall>d. has_open_tag ''nsoevent'' d = contains_open_tag ''nsoevent'' d"
    by (simp add: has_open_tag_iff)
  have h3: "wh_Filter nsoevent_hook = Some ?f"
    by (simp add: nsoevent_hook_def hook_with_def)
  have h4: "?nd ''name'' = Some ''nsoevent''" and h5: "?nd ''value'' = None"
    by simp_all
  note inst = presence_only_condition [where re = regexp_presence and T = "''nsoevent''"
      and m = "has_open_tag ''nsoevent''" and hook = nsoevent_hook and f = ?f and nd = ?nd
      and n = session_start, OF h1 h2 h3 h4 h5]
  have yes: "contains_open_tag ''nsoevent'' alarms_payload"
    using alarms_payload_has_nsoevent by (simp add: has_open_tag_iff)
  have "\<not> has_open_tag ''nsoevent'' custom_event"
    by (simp add: custom_event_def open_tag_at_def)
  then have no: "\<not> contains_open_tag ''nsoevent'' custom_event"
    by (simp add: has_open_tag_iff)
  from inst [where data = alarms_payload] yes
  have a: "filter_webhook regexp_presence nsoevent_hook session_start alarms_payload = Inr True"
    by simp
  from inst [where data = custom_event] no
  have b: "filter_webhook regexp_presence nsoevent_hook session_start custom_event = Inr False"
    by simp
  from h1 h2 h3 a yes b show ?thesis by blast
qed

end
